theory Spec2Isabelle
  imports Main "HOL-Library.Word"
begin

section \<open>Values of the Go runtime that the generators use\<close>

text \<open>
  The repository holds three programs: \<open>main.go\<close> (the first log generator),
  \<open>trace_generator.go\<close> (the context-aware trace generator) and
  \<open>log_generator.go\<close>, which carries a second log generator, an earlier trace generator
  without a context, and the \<open>main\<close> that starts both and shuts them down.
  Definitions taken from \<open>main.go\<close> end in \<open>_main\<close>, those from
  \<open>log_generator.go\<close> in \<open>_lg\<close> and those from \<open>trace_generator.go\<close> in \<open>_tg\<close>.

  Go's \<open>int\<close> values that are only compared, counted or divided here (rates, batch sizes,
  status codes, random draws) are \<open>int\<close>; the byte counter and the span timestamps
  are \<open>int64\<close> and keep their width. Strings and byte slices are lists.
\<close>

type_synonym int64 = "64 word" \<comment> \<open>read as two's complement with \<open>sint\<close>\<close>
type_synonym bytes = "8 word list"
type_synonym time = int \<comment> \<open>an instant, in nanoseconds since the Unix epoch\<close>

datatype goerror =
    LibError string \<comment> \<open>an error value produced inside a library\<close>
  | Canceled \<comment> \<open>\<open>context.Canceled\<close>\<close>
  | DeadlineExceeded \<comment> \<open>\<open>context.DeadlineExceeded\<close>\<close>
  | Errorf string goarg \<comment> \<open>\<open>fmt.Errorf(format, arg)\<close>\<close>
and goarg = AErr goerror | AInt int | AStr string

datatype panic =
    IntegerDivideByZero
  | NonPositiveTickerInterval
  | MakesliceLenOutOfRange
  | CloseOfClosedChannel

text \<open>How a call ends: it returns, panics, ends the process (\<open>log.Fatal\<close>, or a fatal
  error of the runtime such as running out of memory), or never returns because it waits
  for an event that does not come.\<close>

datatype 'a exec = Ret 'a | Panic panic | Exit | Blocked

record request =
  Method :: string
  URL :: string
  Header :: "(string \<times> string) list"
  ReqBody :: bytes

record response =
  StatusCode :: int
  RespBody :: bytes

text \<open>The process state the programs change: the global byte counter, the lines written
  with \<open>log.Printf\<close> (format and arguments, in order), what was printed to standard
  output, and the requests handed to \<open>client.Do\<close>.\<close>

record world =
  totalBytesSent :: int64
  logged :: "(string \<times> goarg list) list"
  printed :: "(string \<times> goarg list) list"
  posted :: "request list"

definition log_Printf :: "string \<Rightarrow> goarg list \<Rightarrow> world \<Rightarrow> world" where
  "log_Printf f args w = w\<lparr>logged := logged w @ [(f, args)]\<rparr>"

definition fmt_Print :: "string \<Rightarrow> goarg list \<Rightarrow> world \<Rightarrow> world" where
  "fmt_Print f args w = w\<lparr>printed := printed w @ [(f, args)]\<rparr>"

text \<open>The libraries a send goes through. \<open>json.Marshal\<close> and \<open>http.NewRequest\<close> are
  functions of their arguments; \<open>client.Do\<close> is the network's answer to a request.\<close>

record 'a libs =
  json_Marshal :: "'a \<Rightarrow> goerror + bytes"
  http_NewRequest :: "string \<Rightarrow> string \<Rightarrow> goerror option"
  client_Do :: "request \<Rightarrow> goerror + response"

text \<open>A Go \<open>map[string]string\<close> is a list of entries with distinct keys; \<open>m[k] = v\<close>
  replaces the entry of \<open>k\<close> or adds one.\<close>

fun Map_Set :: "string \<Rightarrow> string \<Rightarrow> (string \<times> string) list \<Rightarrow> (string \<times> string) list" where
  "Map_Set k v [] = [(k, v)]"
| "Map_Set k v ((k', v') # h) = (if k' = k then (k, v) # h else (k', v') # Map_Set k v h)"

text \<open>\<open>req.Header.Set(key, value)\<close> stores the value under
  \<open>textproto.CanonicalMIMEHeaderKey(key)\<close>: a key made of header-field bytes only has
  its first letter and every letter after a hyphen in upper case and the others in
  lower case; any other key is left as it is.\<close>

definition validHeaderFieldByte :: "char \<Rightarrow> bool" where
  "validHeaderFieldByte c =
     (let n = (of_char c :: nat) in
      (48 \<le> n \<and> n \<le> 57) \<or> (65 \<le> n \<and> n \<le> 90) \<or> (97 \<le> n \<and> n \<le> 122)
      \<or> n \<in> {33, 35, 36, 37, 38, 39, 42, 43, 45, 46, 94, 95, 96, 124, 126})"

fun canonical :: "bool \<Rightarrow> string \<Rightarrow> string" where
  "canonical upper [] = []"
| "canonical upper (c # cs) =
     (let n = (of_char c :: nat);
          c' = (if upper \<and> 97 \<le> n \<and> n \<le> 122 then char_of (n - 32)
                else if \<not> upper \<and> 65 \<le> n \<and> n \<le> 90 then char_of (n + 32)
                else c)
      in c' # canonical (c' = CHR ''-'') cs)"

definition CanonicalMIMEHeaderKey :: "string \<Rightarrow> string" where
  "CanonicalMIMEHeaderKey s = (if list_all validHeaderFieldByte s then canonical True s else s)"

definition Header_Set :: "string \<Rightarrow> string \<Rightarrow> (string \<times> string) list \<Rightarrow> (string \<times> string) list" where
  "Header_Set key val h = Map_Set (CanonicalMIMEHeaderKey key) val h"

subsection \<open>Random sources\<close>

text \<open>\<open>rand.Intn(n)\<close> returns a value in \<open>[0, n)\<close> and \<open>gofakeit.IntRange(lo, hi)\<close>
  one in \<open>[lo, hi]\<close>. Both are read from a raw natural number supplied by the
  environment, so that every value of the range can be drawn and none outside it. Every
  call in the repository has \<open>n > 0\<close> and \<open>lo \<le> hi\<close> (literals, catalogue lengths and
  the weight total).\<close>

definition Intn :: "nat \<Rightarrow> int \<Rightarrow> int" where
  "Intn raw n = int raw mod n"

definition IntRange :: "nat \<Rightarrow> int \<Rightarrow> int \<Rightarrow> int" where
  "IntRange raw lo hi = lo + int raw mod (hi - lo + 1)"

record fakeit =
  Email :: string
  HTTPMethod :: string
  UUID :: string
  Username :: string
  Company :: string
  FakeURL :: string

subsection \<open>Formatting\<close>

datatype fmtval = FStr string | FInt int

fun dec_nat :: "nat \<Rightarrow> string" where
  "dec_nat n = (if n < 10 then [''0123456789'' ! n] else dec_nat (n div 10) @ [''0123456789'' ! (n mod 10)])"

definition dec_int :: "int \<Rightarrow> string" where
  "dec_int i = (if i < 0 then CHR ''-'' # dec_nat (nat (- i)) else dec_nat (nat i))"

fun render :: "fmtval \<Rightarrow> string" where
  "render (FStr s) = s"
| "render (FInt i) = dec_int i"

text \<open>\<open>fmt.Sprintf\<close> for the verbs the templates use: \<open>%s\<close> and \<open>%d\<close> take the next
  argument, \<open>%%\<close> is a percent sign.\<close>

fun Sprintf :: "string \<Rightarrow> fmtval list \<Rightarrow> string" where
  "Sprintf [] args = []"
| "Sprintf [c] args = [c]"
| "Sprintf (c # v # cs) args =
     (if c \<noteq> CHR ''%'' then c # Sprintf (v # cs) args
      else if v = CHR ''%'' then CHR ''%'' # Sprintf cs args
      else (case args of
              [] \<Rightarrow> ''%!'' @ [v] @ ''(MISSING)'' @ Sprintf cs []
            | a # rest \<Rightarrow> render a @ Sprintf cs rest))"

section \<open>Configuration\<close>

record config =
  LogEndpoint :: string
  AuthHeader :: string
  LogRate :: int
  BatchSize :: int

text \<open>\<open>main.go\<close>, \<open>init\<close>: each variable keeps its default unless the environment
  variable is set and, for the two numbers, \<open>strconv.Atoi\<close> accepts it. \<open>getenv\<close> is
  \<open>os.Getenv\<close> (the empty string when unset) and \<open>atoi\<close> is \<open>strconv.Atoi\<close>.\<close>

definition init_main :: "(string \<Rightarrow> string) \<Rightarrow> (string \<Rightarrow> goerror + int) \<Rightarrow> config" where
  "init_main getenv atoi =
     (let batchSize = (if getenv ''BATCH_SIZE'' \<noteq> ''''
                       then (case atoi (getenv ''BATCH_SIZE'') of Inr sz \<Rightarrow> sz | Inl _ \<Rightarrow> 100)
                       else 100);
          logRate = (if getenv ''LOG_RATE'' \<noteq> ''''
                     then (case atoi (getenv ''LOG_RATE'') of Inr rate \<Rightarrow> rate | Inl _ \<Rightarrow> 1)
                     else 1);
          logEndpoint = (if getenv ''LOG_ENDPOINT'' \<noteq> '''' then getenv ''LOG_ENDPOINT'' else '''');
          authHeader = (if getenv ''AUTH_HEADER'' \<noteq> '''' then getenv ''AUTH_HEADER'' else '''')
      in \<lparr>LogEndpoint = logEndpoint, AuthHeader = authHeader, LogRate = logRate, BatchSize = batchSize\<rparr>)"

text \<open>\<open>log_generator.go\<close>, \<open>getEnvInt\<close> and \<open>init\<close>: a missing endpoint ends the process.\<close>

definition getEnvInt :: "(string \<Rightarrow> string) \<Rightarrow> (string \<Rightarrow> goerror + int) \<Rightarrow> string \<Rightarrow> int \<Rightarrow> int" where
  "getEnvInt getenv atoi key defaultValue =
     (case atoi (getenv key) of Inr val \<Rightarrow> val | Inl _ \<Rightarrow> defaultValue)"

definition init_lg :: "(string \<Rightarrow> string) \<Rightarrow> (string \<Rightarrow> goerror + int) \<Rightarrow> config exec" where
  "init_lg getenv atoi =
     (if getenv ''LOG_ENDPOINT'' = '''' then Exit
      else Ret \<lparr>LogEndpoint = getenv ''LOG_ENDPOINT'', AuthHeader = getenv ''AUTH_HEADER'',
                LogRate = getEnvInt getenv atoi ''LOG_RATE'' 1,
                BatchSize = getEnvInt getenv atoi ''BATCH_SIZE'' 100\<rparr>)"

section \<open>Tick interval\<close>

definition Millisecond :: int where
  "Millisecond = 1000000"

definition Second :: int where
  "Second = 1000000000"

text \<open>Go's integer division: a zero divisor panics, the quotient is truncated towards
  zero.\<close>

definition go_quot :: "int \<Rightarrow> int \<Rightarrow> panic + int" where
  "go_quot a b = (if b = 0 then Inl IntegerDivideByZero else Inr (sgn a * sgn b * (\<bar>a\<bar> div \<bar>b\<bar>)))"

text \<open>\<open>time.NewTicker(d)\<close> panics unless \<open>d\<close> is positive.\<close>

definition NewTicker :: "int \<Rightarrow> panic + int" where
  "NewTicker d = (if d \<le> 0 then Inl NonPositiveTickerInterval else Inr d)"

text \<open>The first two statements of \<open>generateLogData\<close> (both files):
  \<open>ticker := time.NewTicker(time.Second / time.Duration(rate))\<close>.\<close>

definition startTicker :: "int \<Rightarrow> panic + int" where
  "startTicker rate = (case go_quot Second rate of Inl p \<Rightarrow> Inl p | Inr delay \<Rightarrow> NewTicker delay)"

section \<open>Log records\<close>

record LogRecord =
  Level :: string
  Job :: string
  Log :: string
  Timestamp :: string

definition jobTypes :: "string list" where
  "jobTypes = [''user-service'', ''payment-processor'', ''order-management'',
     ''inventory-service'', ''notification-service'', ''authentication-service'',
     ''search-service'', ''recommendation-engine'', ''email-service'', ''analytics-processor'']"

definition dbTypes :: "string list" where
  "dbTypes = [''postgres'', ''mysql'', ''mongodb'', ''redis'', ''elasticsearch'', ''cassandra'']"

subsection \<open>\<open>getRandomLogLevel\<close>\<close>

text \<open>The weights are a Go map. A \<open>range\<close> over a map visits every entry once, in an
  order the runtime chooses anew for each loop; the order of each of the two loops is an
  argument, a list holding the entries of \<open>weights\<close>.\<close>

definition weights :: "(string \<times> int) list" where
  "weights = [(''debug'', 15), (''info'', 60), (''warn'', 20), (''error'', 5)]"

definition is_enumeration :: "(string \<times> int) list \<Rightarrow> bool" where
  "is_enumeration ord = (distinct ord \<and> set ord = set weights)"

text \<open>\<open>for _, weight := range weights { total += weight }\<close>\<close>

fun sum_weights :: "(string \<times> int) list \<Rightarrow> int \<Rightarrow> int" where
  "sum_weights [] tot = tot"
| "sum_weights ((level, weight) # rest) tot = sum_weights rest (tot + weight)"

text \<open>The selection loop of \<open>log_generator.go\<close>:
  \<open>current += weight; if r < current { return level }\<close>. \<open>None\<close> is the end of the loop
  without a return.\<close>

fun scan_lg :: "(string \<times> int) list \<Rightarrow> int \<Rightarrow> int \<Rightarrow> string option" where
  "scan_lg [] r current = None"
| "scan_lg ((level, weight) # rest) r current =
     (if r < current + weight then Some level else scan_lg rest r (current + weight))"

text \<open>The selection loop of \<open>main.go\<close>:
  \<open>current += weight; if r <= current { return level }\<close>.\<close>

fun scan_main :: "(string \<times> int) list \<Rightarrow> int \<Rightarrow> int \<Rightarrow> string option" where
  "scan_main [] r current = None"
| "scan_main ((level, weight) # rest) r current =
     (if r \<le> current + weight then Some level else scan_main rest r (current + weight))"

text \<open>The draws: \<open>rand.Intn(total)\<close> in \<open>log_generator.go\<close>,
  \<open>gofakeit.IntRange(1, total)\<close> in \<open>main.go\<close>.\<close>

definition draw_lg :: "(string \<times> int) list \<Rightarrow> nat \<Rightarrow> int" where
  "draw_lg ord1 raw = Intn raw (sum_weights ord1 0)"

definition draw_main :: "(string \<times> int) list \<Rightarrow> nat \<Rightarrow> int" where
  "draw_main ord1 raw = IntRange raw 1 (sum_weights ord1 0)"

definition getRandomLogLevel_lg :: "(string \<times> int) list \<Rightarrow> (string \<times> int) list \<Rightarrow> nat \<Rightarrow> string" where
  "getRandomLogLevel_lg ord1 ord2 raw =
     (case scan_lg ord2 (draw_lg ord1 raw) 0 of Some level \<Rightarrow> level | None \<Rightarrow> ''info'')"

definition getRandomLogLevel_main :: "(string \<times> int) list \<Rightarrow> (string \<times> int) list \<Rightarrow> nat \<Rightarrow> string" where
  "getRandomLogLevel_main ord1 ord2 raw =
     (case scan_main ord2 (draw_main ord1 raw) 0 of Some level \<Rightarrow> level | None \<Rightarrow> ''info'')"

subsection \<open>Vocabulary for the weighted draw\<close>

text \<open>The cumulative weight after entry \<open>k\<close> (counted from 0) of an enumeration, and
  the four level names.\<close>

definition cumulative :: "(string \<times> int) list \<Rightarrow> nat \<Rightarrow> int" where
  "cumulative ord k = sum_list (map snd (take (Suc k) ord))"

definition levels :: "string set" where
  "levels = {''debug'', ''info'', ''warn'', ''error''}"

subsection \<open>\<open>generateRandomEvent\<close>\<close>

definition events :: "string list" where
  "events = [''Processing request from %s'', ''Handled %s request in %dms'', ''Connected to %s'',
     ''Cache hit for key: %s'', ''Updated user profile for %s'', ''Received webhook from %s'',
     ''API rate limit: %d requests remaining'', ''Successfully processed transaction %s'',
     ''Queue size reached %d messages'', ''Memory usage at %d%%'']"

text \<open>What one record draws from the random sources: the two map orders and the raw
  draw of the level, the raw draws of the job, the template, the number and the
  database, and the strings the fake-data library returns.\<close>

record record_draws =
  sumOrder :: "(string \<times> int) list"
  pickOrder :: "(string \<times> int) list"
  levelRaw :: nat
  jobRaw :: nat
  templateRaw :: nat
  numRaw :: nat
  dbRaw :: nat
  fake :: fakeit

definition generateRandomEvent_main :: "record_draws \<Rightarrow> string" where
  "generateRandomEvent_main d =
     (let eventTemplate = events ! nat (IntRange (templateRaw d) 0 (int (length events) - 1)) in
      if eventTemplate = ''Processing request from %s'' then
        Sprintf eventTemplate [FStr (Email (fake d))]
      else if eventTemplate = ''Handled %s request in %dms'' then
        Sprintf eventTemplate [FStr (HTTPMethod (fake d)), FInt (IntRange (numRaw d) 10 500)]
      else if eventTemplate = ''Connected to %s'' then
        Sprintf eventTemplate [FStr (dbTypes ! nat (IntRange (dbRaw d) 0 (int (length dbTypes) - 1)))]
      else if eventTemplate = ''Cache hit for key: %s'' then
        Sprintf eventTemplate [FStr (UUID (fake d))]
      else if eventTemplate = ''Updated user profile for %s'' then
        Sprintf eventTemplate [FStr (Username (fake d))]
      else if eventTemplate = ''Received webhook from %s'' then
        Sprintf eventTemplate [FStr (Company (fake d))]
      else if eventTemplate = ''API rate limit: %d requests remaining'' then
        Sprintf eventTemplate [FInt (IntRange (numRaw d) 1 1000)]
      else if eventTemplate = ''Successfully processed transaction %s'' then
        Sprintf eventTemplate [FStr (UUID (fake d))]
      else if eventTemplate = ''Queue size reached %d messages'' then
        Sprintf eventTemplate [FInt (IntRange (numRaw d) 100 10000)]
      else if eventTemplate = ''Memory usage at %d%%'' then
        Sprintf eventTemplate [FInt (IntRange (numRaw d) 20 95)]
      else ''Default log message'')"

definition generateRandomEvent_lg :: "record_draws \<Rightarrow> string" where
  "generateRandomEvent_lg d =
     (let eventTemplate = events ! nat (Intn (templateRaw d) (int (length events))) in
      if eventTemplate = ''Processing request from %s'' then
        Sprintf eventTemplate [FStr (Email (fake d))]
      else if eventTemplate = ''Handled %s request in %dms'' then
        Sprintf eventTemplate [FStr (HTTPMethod (fake d)), FInt (Intn (numRaw d) 490 + 10)]
      else if eventTemplate = ''Connected to %s'' then
        Sprintf eventTemplate [FStr (dbTypes ! nat (Intn (dbRaw d) (int (length dbTypes))))]
      else if eventTemplate = ''Cache hit for key: %s'' then
        Sprintf eventTemplate [FStr (UUID (fake d))]
      else if eventTemplate = ''Updated user profile for %s'' then
        Sprintf eventTemplate [FStr (Email (fake d))]
      else if eventTemplate = ''Received webhook from %s'' then
        Sprintf eventTemplate [FStr (FakeURL (fake d))]
      else if eventTemplate = ''API rate limit: %d requests remaining'' then
        Sprintf eventTemplate [FInt (Intn (numRaw d) 1000)]
      else if eventTemplate = ''Successfully processed transaction %s'' then
        Sprintf eventTemplate [FStr (UUID (fake d))]
      else if eventTemplate = ''Queue size reached %d messages'' then
        Sprintf eventTemplate [FInt (Intn (numRaw d) 10000)]
      else if eventTemplate = ''Memory usage at %d%%'' then
        Sprintf eventTemplate [FInt (Intn (numRaw d) 100)]
      else ''Default log message'')"

subsection \<open>The batch of one tick\<close>

text \<open>\<open>make([]T, n)\<close>, the runtime's \<open>makeslice\<close>: it panics with
  \<open>makeslice: len out of range\<close> when \<open>n\<close> is negative or the slice would take more
  than \<open>maxAlloc\<close> bytes; otherwise it asks the allocator for the bytes, and an allocator
  that cannot obtain them ends the process with \<open>out of memory\<close>; a slice of no bytes
  needs no memory. \<open>granted\<close> says whether the memory is obtained. The build target is
  linux/amd64, where \<open>maxAlloc\<close> is \<open>2^48\<close>; a \<open>LogRecord\<close> is four string headers of
  16 bytes.\<close>

definition maxAlloc :: int where
  "maxAlloc = 2 ^ 48"

definition sizeof_LogRecord :: int where
  "sizeof_LogRecord = 64"

definition makeslice :: "int \<Rightarrow> int \<Rightarrow> bool \<Rightarrow> nat exec" where
  "makeslice elemSize n granted =
     (if n < 0 \<or> elemSize * n > maxAlloc then Panic MakesliceLenOutOfRange
      else if 0 < elemSize * n \<and> \<not> granted then Exit
      else Ret (nat n))"

text \<open>The body of \<open>case <-ticker.C\<close> up to the send:
  \<open>make([]LogRecord, batchSize)\<close>, then the clock is read once and record \<open>i\<close> is
  filled for \<open>i = 0, ..., batchSize - 1\<close>. \<open>rfc3339\<close> is \<open>now.Format(time.RFC3339)\<close>
  and \<open>draws i\<close> is what record \<open>i\<close> draws.\<close>

definition record_main :: "(time \<Rightarrow> string) \<Rightarrow> time \<Rightarrow> record_draws \<Rightarrow> LogRecord" where
  "record_main rfc3339 now d =
     \<lparr>Level = getRandomLogLevel_main (sumOrder d) (pickOrder d) (levelRaw d),
      Job = jobTypes ! nat (IntRange (jobRaw d) 0 (int (length jobTypes) - 1)),
      Log = generateRandomEvent_main d,
      Timestamp = rfc3339 now\<rparr>"

definition record_lg :: "(time \<Rightarrow> string) \<Rightarrow> time \<Rightarrow> record_draws \<Rightarrow> LogRecord" where
  "record_lg rfc3339 now d =
     \<lparr>Level = getRandomLogLevel_lg (sumOrder d) (pickOrder d) (levelRaw d),
      Job = jobTypes ! nat (Intn (jobRaw d) (int (length jobTypes))),
      Log = generateRandomEvent_lg d,
      Timestamp = rfc3339 now\<rparr>"

definition batch_main :: "int \<Rightarrow> bool \<Rightarrow> (time \<Rightarrow> string) \<Rightarrow> time \<Rightarrow> (nat \<Rightarrow> record_draws) \<Rightarrow> LogRecord list exec" where
  "batch_main batchSize granted rfc3339 now draws =
     (case makeslice sizeof_LogRecord batchSize granted of
        Ret n \<Rightarrow> Ret (map (\<lambda>i. record_main rfc3339 now (draws i)) [0..<n])
      | Panic p \<Rightarrow> Panic p
      | Exit \<Rightarrow> Exit
      | Blocked \<Rightarrow> Blocked)"

definition batch_lg :: "int \<Rightarrow> bool \<Rightarrow> (time \<Rightarrow> string) \<Rightarrow> time \<Rightarrow> (nat \<Rightarrow> record_draws) \<Rightarrow> LogRecord list exec" where
  "batch_lg batchSize granted rfc3339 now draws =
     (case makeslice sizeof_LogRecord batchSize granted of
        Ret n \<Rightarrow> Ret (map (\<lambda>i. record_lg rfc3339 now (draws i)) [0..<n])
      | Panic p \<Rightarrow> Panic p
      | Exit \<Rightarrow> Exit
      | Blocked \<Rightarrow> Blocked)"

section \<open>Sending a batch\<close>

text \<open>The request both senders build: \<open>POST\<close> to the endpoint with the payload, the
  content type, and the authorisation header when one is configured.\<close>

definition logRequest :: "config \<Rightarrow> bytes \<Rightarrow> request" where
  "logRequest cfg batchData =
     (let req = \<lparr>Method = ''POST'', URL = LogEndpoint cfg, Header = [], ReqBody = batchData\<rparr>;
          req = req\<lparr>Header := Header_Set ''Content-Type'' ''application/json'' (Header req)\<rparr>
      in if AuthHeader cfg \<noteq> ''''
         then req\<lparr>Header := Header_Set ''Authorization'' (AuthHeader cfg) (Header req)\<rparr>
         else req)"

text \<open>\<open>main.go\<close>, \<open>sendLogBatch\<close>: no result; every failure is a log line. Only the
  status of the response is read.\<close>

definition sendLogBatch_main :: "config \<Rightarrow> LogRecord list libs \<Rightarrow> LogRecord list \<Rightarrow> world \<Rightarrow> world" where
  "sendLogBatch_main cfg lib logBatch w =
     (case json_Marshal lib logBatch of
        Inl err \<Rightarrow> log_Printf ''failed to marshal log batch: %v'' [AErr err] w
      | Inr batchData \<Rightarrow>
          (case http_NewRequest lib ''POST'' (LogEndpoint cfg) of
             Some err \<Rightarrow> log_Printf ''failed to create HTTP request: %v'' [AErr err] w
           | None \<Rightarrow>
               (let req = logRequest cfg batchData;
                    w1 = w\<lparr>posted := posted w @ [req]\<rparr>
                in case client_Do lib req of
                     Inl err \<Rightarrow> log_Printf ''failed to send log batch: %v'' [AErr err] w1
                   | Inr resp \<Rightarrow>
                       if StatusCode resp \<noteq> 200 \<and> StatusCode resp \<noteq> 201
                       then log_Printf ''unexpected status code: %d'' [AInt (StatusCode resp)] w1
                       else w1\<lparr>totalBytesSent := totalBytesSent w1 + of_nat (length batchData)\<rparr>)))"

text \<open>\<open>log_generator.go\<close>, \<open>sendLogBatch\<close>: the failure is returned.\<close>

definition sendLogBatch_lg :: "config \<Rightarrow> LogRecord list libs \<Rightarrow> LogRecord list \<Rightarrow> world \<Rightarrow> goerror option \<times> world" where
  "sendLogBatch_lg cfg lib logBatch w =
     (case json_Marshal lib logBatch of
        Inl err \<Rightarrow> (Some (Errorf ''failed to marshal log batch: %w'' (AErr err)), w)
      | Inr batchData \<Rightarrow>
          (case http_NewRequest lib ''POST'' (LogEndpoint cfg) of
             Some err \<Rightarrow> (Some (Errorf ''failed to create HTTP request: %w'' (AErr err)), w)
           | None \<Rightarrow>
               (let req = logRequest cfg batchData;
                    w1 = w\<lparr>posted := posted w @ [req]\<rparr>
                in case client_Do lib req of
                     Inl err \<Rightarrow> (Some (Errorf ''failed to send log batch: %w'' (AErr err)), w1)
                   | Inr resp \<Rightarrow>
                       if StatusCode resp \<ge> 400
                       then (Some (Errorf ''server returned error status: %d'' (AInt (StatusCode resp))), w1)
                       else (None, w1\<lparr>totalBytesSent := totalBytesSent w1 + of_nat (length batchData)\<rparr>))))"

subsection \<open>Vocabulary for the outcome of a send\<close>

text \<open>The specification's reading of a status: success is any status from 200 to 299.\<close>

definition is_2xx :: "int \<Rightarrow> bool" where
  "is_2xx s = (200 \<le> s \<and> s < 300)"

text \<open>The specification's notion of a delivery that succeeds, for a sender that accepts
  the statuses \<open>ok\<close>: serialisation, request creation and transport all succeed and the
  status is accepted. The value is the serialised payload of such a delivery.\<close>

definition delivered :: "(int \<Rightarrow> bool) \<Rightarrow> config \<Rightarrow> LogRecord list libs \<Rightarrow> LogRecord list \<Rightarrow> bytes option" where
  "delivered ok cfg lib batch =
     (case json_Marshal lib batch of
        Inl e \<Rightarrow> None
      | Inr data \<Rightarrow>
          (case http_NewRequest lib ''POST'' (LogEndpoint cfg) of
             Some e \<Rightarrow> None
           | None \<Rightarrow>
               (case client_Do lib (logRequest cfg data) of
                  Inl e \<Rightarrow> None
                | Inr resp \<Rightarrow> if ok (StatusCode resp) then Some data else None)))"

definition accepts_main :: "int \<Rightarrow> bool" where
  "accepts_main s = (s = 200 \<or> s = 201)"

definition accepts_lg :: "int \<Rightarrow> bool" where
  "accepts_lg s = (s < 400)"

section \<open>The log-generation loop\<close>

text \<open>What the \<open>select\<close> of the loop receives, in order: the closed \<open>done\<close> channel, or a
  tick with the clock reading, whether the memory for the batch is obtained, the draws
  and the network of that tick. When the events run out the loop is still waiting.\<close>

datatype 'e event = DoneClosed | TickFired 'e

record tick_env =
  tickNow :: time
  granted :: bool
  draws :: "nat \<Rightarrow> record_draws"
  net :: "LogRecord list libs"

text \<open>The body of \<open>case <-ticker.C\<close>: the batch is built and sent. In \<open>main.go\<close> the
  sender logs its own failures; in \<open>log_generator.go\<close> the loop logs the error the
  sender returns. The result is \<open>Ret ()\<close> when the loop goes on.\<close>

definition tick_main :: "config \<Rightarrow> (time \<Rightarrow> string) \<Rightarrow> tick_env \<Rightarrow> world \<Rightarrow> unit exec \<times> world" where
  "tick_main cfg rfc3339 e w =
     (case batch_main (BatchSize cfg) (granted e) rfc3339 (tickNow e) (draws e) of
        Ret batch \<Rightarrow> (Ret (), sendLogBatch_main cfg (net e) batch w)
      | Panic p \<Rightarrow> (Panic p, w)
      | Exit \<Rightarrow> (Exit, w)
      | Blocked \<Rightarrow> (Blocked, w))"

definition tick_lg :: "config \<Rightarrow> (time \<Rightarrow> string) \<Rightarrow> tick_env \<Rightarrow> world \<Rightarrow> unit exec \<times> world" where
  "tick_lg cfg rfc3339 e w =
     (case batch_lg (BatchSize cfg) (granted e) rfc3339 (tickNow e) (draws e) of
        Ret batch \<Rightarrow>
          (case sendLogBatch_lg cfg (net e) batch w of
             (Some err, w1) \<Rightarrow> (Ret (), log_Printf ''Failed to send log batch: %v'' [AErr err] w1)
           | (None, w1) \<Rightarrow> (Ret (), w1))
      | Panic p \<Rightarrow> (Panic p, w)
      | Exit \<Rightarrow> (Exit, w)
      | Blocked \<Rightarrow> (Blocked, w))"

fun loop_main :: "config \<Rightarrow> (time \<Rightarrow> string) \<Rightarrow> tick_env event list \<Rightarrow> world \<Rightarrow> unit exec \<times> world" where
  "loop_main cfg rfc3339 [] w = (Blocked, w)"
| "loop_main cfg rfc3339 (DoneClosed # es) w = (Ret (), w)"
| "loop_main cfg rfc3339 (TickFired e # es) w =
     (case tick_main cfg rfc3339 e w of
        (Ret u, w1) \<Rightarrow> loop_main cfg rfc3339 es w1
      | (other, w1) \<Rightarrow> (other, w1))"

fun loop_lg :: "config \<Rightarrow> (time \<Rightarrow> string) \<Rightarrow> tick_env event list \<Rightarrow> world \<Rightarrow> unit exec \<times> world" where
  "loop_lg cfg rfc3339 [] w = (Blocked, w)"
| "loop_lg cfg rfc3339 (DoneClosed # es) w = (Ret (), w)"
| "loop_lg cfg rfc3339 (TickFired e # es) w =
     (case tick_lg cfg rfc3339 e w of
        (Ret u, w1) \<Rightarrow> loop_lg cfg rfc3339 es w1
      | (other, w1) \<Rightarrow> (other, w1))"

text \<open>\<open>generateLogData\<close>: the ticker is created from the rate, then the loop runs.\<close>

definition generateLogData_main :: "config \<Rightarrow> (time \<Rightarrow> string) \<Rightarrow> tick_env event list \<Rightarrow> world \<Rightarrow> unit exec \<times> world" where
  "generateLogData_main cfg rfc3339 es w =
     (case startTicker (LogRate cfg) of Inl p \<Rightarrow> (Panic p, w) | Inr delay \<Rightarrow> loop_main cfg rfc3339 es w)"

definition generateLogData_lg :: "config \<Rightarrow> (time \<Rightarrow> string) \<Rightarrow> tick_env event list \<Rightarrow> world \<Rightarrow> unit exec \<times> world" where
  "generateLogData_lg cfg rfc3339 es w =
     (case startTicker (LogRate cfg) of Inl p \<Rightarrow> (Panic p, w) | Inr delay \<Rightarrow> loop_lg cfg rfc3339 es w)"

text \<open>How many loops each \<open>main\<close> starts: \<open>main.go\<close> starts one goroutine per unit of
  the rate (\<open>for i := 0; i < logRate; i++\<close>), the \<open>main\<close> of \<open>log_generator.go\<close> starts
  one whatever the rate.\<close>

definition loops_started_main :: "config \<Rightarrow> nat" where
  "loops_started_main cfg = nat (LogRate cfg)"

definition loops_started_lg :: "config \<Rightarrow> nat" where
  "loops_started_lg cfg = 1"

section \<open>Traces\<close>

record Span =
  TraceID :: string
  SpanID :: string
  ParentID :: string \<comment> \<open>empty for a span without a parent (\<open>omitempty\<close> on the wire)\<close>
  Name :: string
  StartTime :: int64
  EndTime :: int64
  ServiceName :: string
  Attributes :: "(string \<times> string) list"

record Trace =
  Spans :: "Span list"

definition serviceNames :: "string list" where
  "serviceNames = [''user-service'', ''order-service'', ''payment-service'', ''inventory-service'']"

subsection \<open>\<open>generateRandomID\<close>\<close>

definition hex_byte :: "8 word \<Rightarrow> string" where
  "hex_byte b = [''0123456789abcdef'' ! (unat b div 16), ''0123456789abcdef'' ! (unat b mod 16)]"

text \<open>A 16-byte buffer is made, \<open>crypto/rand.Read\<close> fills it or fails, a failure ends the
  process through \<open>log.Fatalf\<close>, and the buffer is printed with \<open>%x\<close>. The argument is
  what \<open>Read\<close> did: an error, or the bytes it put into the buffer.\<close>

definition hex16 :: "bytes \<Rightarrow> string" where
  "hex16 bs = concat (map hex_byte (take 16 (bs @ replicate 16 0)))"

definition generateRandomID :: "goerror + bytes \<Rightarrow> world \<Rightarrow> string exec \<times> world" where
  "generateRandomID rd w =
     (case rd of
        Inl err \<Rightarrow> (Exit, log_Printf ''error reading random bytes: %v'' [AErr err] w)
      | Inr bs \<Rightarrow> (Ret (hex16 bs), w))"

subsection \<open>Time stamps\<close>

text \<open>\<open>t.UnixNano()\<close> is the instant as an \<open>int64\<close>; \<open>t.Add(d)\<close> moves an instant by a
  duration, itself an \<open>int64\<close> of nanoseconds.\<close>

definition UnixNano :: "time \<Rightarrow> int64" where
  "UnixNano t = word_of_int t"

definition Add :: "time \<Rightarrow> int64 \<Rightarrow> time" where
  "Add t d = t + sint d"

definition Duration :: "int \<Rightarrow> int64" where
  "Duration n = word_of_int n"

subsection \<open>Configuration of the trace senders\<close>

record Config =
  Endpoint :: string
  Headers :: "(string \<times> string) list"

definition defaultConfig :: Config where
  "defaultConfig = \<lparr>Endpoint = ''http://localhost:4318/traces'',
     Headers = [(''Content-Type'', ''application/json''), (''stream-name'', ''default'')]\<rparr>"

text \<open>\<open>trace_generator.go\<close>, \<open>loadConfig\<close>. \<open>cfg := defaultConfig\<close> copies the struct, and
  the copy holds the same map as \<open>defaultConfig\<close>: a write to \<open>cfg.Headers\<close> is a write
  to \<open>defaultConfig.Headers\<close>, while \<open>cfg.Endpoint\<close> is the copy's own. The function
  takes the value of the global \<open>defaultConfig\<close> and returns the configuration it
  returns together with the global after the call. A write to a map keeps the key as
  written.\<close>

definition loadConfig :: "(string \<Rightarrow> string) \<Rightarrow> Config \<Rightarrow> world \<Rightarrow> (Config \<times> Config) \<times> world" where
  "loadConfig getenv global w =
     (let endpoint = Endpoint global;
          headers = Headers global;
          w = log_Printf ''Loading trace configuration...'' [] w;
          (endpoint, w) = (if getenv ''TRACES_ENDPOINT'' \<noteq> ''''
                           then (getenv ''TRACES_ENDPOINT'',
                                 log_Printf ''Using custom endpoint: %s'' [AStr (getenv ''TRACES_ENDPOINT'')] w)
                           else (endpoint, w));
          (headers, w) = (if getenv ''AUTH_HEADER'' \<noteq> ''''
                          then (Map_Set ''Authorization'' (getenv ''AUTH_HEADER'') headers,
                                log_Printf ''Authorization header found'' [] w)
                          else (headers, w));
          (headers, w) = (if getenv ''TRACES_STREAM'' \<noteq> ''''
                          then (Map_Set ''stream-name'' (getenv ''TRACES_STREAM'') headers,
                                log_Printf ''Using stream: %s'' [AStr (getenv ''TRACES_STREAM'')] w)
                          else (headers, w))
      in ((\<lparr>Endpoint = endpoint, Headers = headers\<rparr>, global\<lparr>Headers := headers\<rparr>), w))"

text \<open>\<open>log_generator.go\<close>, \<open>getEnvOrDefault\<close>, which sets its \<open>endpoint\<close> and
  \<open>authHeader\<close>.\<close>

definition getEnvOrDefault :: "(string \<Rightarrow> string) \<Rightarrow> string \<Rightarrow> string \<Rightarrow> string" where
  "getEnvOrDefault getenv key defaultValue = (if getenv key \<noteq> '''' then getenv key else defaultValue)"

subsection \<open>\<open>encoding/json\<close>\<close>








subsection \<open>\<open>sendTrace\<close>\<close>

text \<open>\<open>trace_generator.go\<close>. The branch taken when \<open>json.Marshal\<close> fails is empty, so
  the function goes on with the \<open>nil\<close> payload that \<open>Marshal\<close> returns beside its error.
  The headers are set in the order in which \<open>range\<close> visits the map, here the order of
  the list.\<close>

definition sendTrace_tg :: "Config \<Rightarrow> Trace libs \<Rightarrow> Trace \<Rightarrow> world \<Rightarrow> goerror option \<times> world" where
  "sendTrace_tg tracesConfig lib trace w =
     (let w = log_Printf ''Sending trace with %d spans...'' [AInt (int (length (Spans trace)))] w;
          payload = (case json_Marshal lib trace of Inl err \<Rightarrow> [] | Inr data \<Rightarrow> data)
      in case http_NewRequest lib ''POST'' (Endpoint tracesConfig) of
           Some err \<Rightarrow> (Some (Errorf ''error creating request: %v'' (AErr err)), w)
         | None \<Rightarrow>
             (let req = \<lparr>Method = ''POST'', URL = Endpoint tracesConfig, Header = [], ReqBody = payload\<rparr>;
                  w = fmt_Print ''Auth Header: %v\<newline>''
                        [AStr (case map_of (Headers tracesConfig) ''Authorization'' of
                                 None \<Rightarrow> '''' | Some v \<Rightarrow> v)] w;
                  w = fmt_Print ''Endpoint: '' [AStr (Endpoint tracesConfig)] w;
                  req = req\<lparr>Header := fold (\<lambda>(key, val). Header_Set key val) (Headers tracesConfig) (Header req)\<rparr>;
                  w = w\<lparr>posted := posted w @ [req]\<rparr>
              in case client_Do lib req of
                   Inl err \<Rightarrow>
                     (Some (Errorf ''error sending trace: %v'' (AErr err)),
                      log_Printf ''Error sending trace: %v'' [AErr err] w)
                 | Inr resp \<Rightarrow>
                     if StatusCode resp \<noteq> 200
                     then (Some (Errorf ''unexpected status code: %d'' (AInt (StatusCode resp))),
                           log_Printf ''Unexpected status code: %d'' [AInt (StatusCode resp)] w)
                     else (None, log_Printf ''Successfully sent trace with %d spans''
                                   [AInt (int (length (Spans trace)))] w)))"

text \<open>\<open>log_generator.go\<close>: a failed \<open>Marshal\<close> is returned.\<close>

definition sendTrace_lg :: "string \<Rightarrow> string \<Rightarrow> Trace libs \<Rightarrow> Trace \<Rightarrow> world \<Rightarrow> goerror option \<times> world" where
  "sendTrace_lg endpoint authHeader lib trace w =
     (case json_Marshal lib trace of
        Inl err \<Rightarrow> (Some (Errorf ''error marshaling trace: %v'' (AErr err)), w)
      | Inr payload \<Rightarrow>
          (case http_NewRequest lib ''POST'' endpoint of
             Some err \<Rightarrow> (Some (Errorf ''error creating request: %v'' (AErr err)), w)
           | None \<Rightarrow>
               (let req = \<lparr>Method = ''POST'', URL = endpoint, Header = [], ReqBody = payload\<rparr>;
                    req = req\<lparr>Header := Header_Set ''Content-Type'' ''application/json'' (Header req)\<rparr>;
                    req = (if authHeader \<noteq> ''''
                           then req\<lparr>Header := Header_Set ''Authorization'' authHeader (Header req)\<rparr>
                           else req);
                    w = w\<lparr>posted := posted w @ [req]\<rparr>
                in case client_Do lib req of
                     Inl err \<Rightarrow> (Some (Errorf ''error sending trace: %v'' (AErr err)), w)
                   | Inr resp \<Rightarrow>
                       if StatusCode resp \<noteq> 200
                       then (Some (Errorf ''unexpected status code: %d'' (AInt (StatusCode resp))), w)
                       else (None, w))))"

subsection \<open>\<open>generateTrace\<close>\<close>

text \<open>A context as the code observes it: still active, or done, in which case
  \<open>ctx.Err()\<close> returns the error it was ended with.\<close>

datatype ctx_state = Active | Done goerror

text \<open>What building one child span meets: the context at the \<open>select\<close> that opens the
  loop body, the read of the span identifier, the raw draws of the start jitter and of
  the simulated duration, how the wait ends (\<open>Active\<close>: the timer fires;
  \<open>Done\<close>: the \<open>select\<close> takes \<open>ctx.Done()\<close>), and the clock read after the wait.
  The generator of \<open>log_generator.go\<close> has no context and reads neither context field.\<close>

record child_env =
  ctxBefore :: ctx_state
  idRead :: "goerror + bytes"
  jitterRaw :: nat
  sleepRaw :: nat
  ctxInWait :: ctx_state
  clockAfter :: time

record trace_env =
  traceIdRead :: "goerror + bytes"
  rootIdRead :: "goerror + bytes"
  clockStart :: time
  child :: "nat \<Rightarrow> child_env"
  clockEnd :: time

definition rootSpan0 :: "string \<Rightarrow> string \<Rightarrow> time \<Rightarrow> Span" where
  "rootSpan0 traceID spanID now =
     \<lparr>TraceID = traceID, SpanID = spanID, ParentID = '''', Name = ''API Request'',
      StartTime = UnixNano now, EndTime = 0, ServiceName = ''trace-generator'',
      Attributes = [(''span.kind'', ''server'')]\<rparr>"

definition childSpan0 :: "string \<Rightarrow> Span \<Rightarrow> time \<Rightarrow> child_env \<Rightarrow> string \<Rightarrow> string \<Rightarrow> Span" where
  "childSpan0 traceID rootSpan now e spanID service =
     \<lparr>TraceID = traceID, SpanID = spanID, ParentID = SpanID rootSpan, Name = service,
      StartTime = UnixNano (Add now (Duration (Intn (jitterRaw e) 100) * Duration Millisecond)),
      EndTime = 0, ServiceName = service,
      Attributes = [(''span.kind'', ''client''), (''operation'', ''process_request''),
                    (''service.name'', service)]\<rparr>"

text \<open>The duration of the timer (or sleep) that simulates a child span, in
  nanoseconds: \<open>time.Millisecond * time.Duration(100 + mathrand.Intn(200))\<close>.\<close>

definition simulated :: "child_env \<Rightarrow> int" where
  "simulated e = Millisecond * (100 + Intn (sleepRaw e) 200)"

text \<open>\<open>trace_generator.go\<close>, the loop over the services. The result is \<open>Ret (Inl err)\<close>
  when the function returns \<open>ctx.Err()\<close> from inside the loop, \<open>Ret (Inr spans)\<close> when
  the loop ends, and \<open>Exit\<close> when an identifier cannot be read.\<close>

fun children_tg :: "string \<Rightarrow> Span \<Rightarrow> time \<Rightarrow> (nat \<Rightarrow> child_env) \<Rightarrow> nat \<Rightarrow> string list \<Rightarrow> Span list \<Rightarrow> world
    \<Rightarrow> (goerror + Span list) exec \<times> world" where
  "children_tg traceID rootSpan now env i [] spans w = (Ret (Inr spans), w)"
| "children_tg traceID rootSpan now env i (service # rest) spans w =
     (case ctxBefore (env i) of
        Done err \<Rightarrow> (Ret (Inl err), w)
      | Active \<Rightarrow>
          (case generateRandomID (idRead (env i)) w of
             (Ret spanID, w1) \<Rightarrow>
               (let childSpan = childSpan0 traceID rootSpan now (env i) spanID service in
                case ctxInWait (env i) of
                  Done err \<Rightarrow> (Ret (Inl err), w1)
                | Active \<Rightarrow>
                    children_tg traceID rootSpan now env (Suc i) rest
                      (spans @ [childSpan\<lparr>EndTime := UnixNano (clockAfter (env i))\<rparr>]) w1)
           | (other, w1) \<Rightarrow> (Exit, w1)))"

text \<open>\<open>log_generator.go\<close>, the loop over the services: \<open>time.Sleep\<close>, no context.\<close>

fun children_lg :: "string \<Rightarrow> Span \<Rightarrow> time \<Rightarrow> (nat \<Rightarrow> child_env) \<Rightarrow> nat \<Rightarrow> string list \<Rightarrow> Span list \<Rightarrow> world
    \<Rightarrow> Span list exec \<times> world" where
  "children_lg traceID rootSpan now env i [] spans w = (Ret spans, w)"
| "children_lg traceID rootSpan now env i (service # rest) spans w =
     (case generateRandomID (idRead (env i)) w of
        (Ret spanID, w1) \<Rightarrow>
          (let childSpan = childSpan0 traceID rootSpan now (env i) spanID service in
           children_lg traceID rootSpan now env (Suc i) rest
             (spans @ [childSpan\<lparr>EndTime := UnixNano (clockAfter (env i))\<rparr>]) w1)
      | (other, w1) \<Rightarrow> (Exit, w1))"

text \<open>\<open>generateTrace\<close> up to its last statement: the trace that is handed to
  \<open>sendTrace\<close>, for a catalogue of services.\<close>

definition buildTrace_tg :: "string list \<Rightarrow> trace_env \<Rightarrow> world \<Rightarrow> (goerror + Trace) exec \<times> world" where
  "buildTrace_tg services env w =
     (case generateRandomID (traceIdRead env) w of
        (Ret traceID, w1) \<Rightarrow>
          (let now = clockStart env in
           case generateRandomID (rootIdRead env) w1 of
             (Ret spanID, w2) \<Rightarrow>
               (let rootSpan = rootSpan0 traceID spanID now in
                case children_tg traceID rootSpan now (child env) 0 services [] w2 of
                  (Ret (Inr spans), w3) \<Rightarrow>
                    (Ret (Inr \<lparr>Spans = spans @ [rootSpan\<lparr>EndTime := UnixNano (clockEnd env)\<rparr>]\<rparr>), w3)
                | (Ret (Inl err), w3) \<Rightarrow> (Ret (Inl err), w3)
                | (other, w3) \<Rightarrow> (Exit, w3))
           | (other, w2) \<Rightarrow> (Exit, w2))
      | (other, w1) \<Rightarrow> (Exit, w1))"

definition buildTrace_lg :: "string list \<Rightarrow> trace_env \<Rightarrow> world \<Rightarrow> Trace exec \<times> world" where
  "buildTrace_lg services env w =
     (case generateRandomID (traceIdRead env) w of
        (Ret traceID, w1) \<Rightarrow>
          (let now = clockStart env in
           case generateRandomID (rootIdRead env) w1 of
             (Ret spanID, w2) \<Rightarrow>
               (let rootSpan = rootSpan0 traceID spanID now in
                case children_lg traceID rootSpan now (child env) 0 services [] w2 of
                  (Ret spans, w3) \<Rightarrow>
                    (Ret \<lparr>Spans = spans @ [rootSpan\<lparr>EndTime := UnixNano (clockEnd env)\<rparr>]\<rparr>, w3)
                | (other, w3) \<Rightarrow> (Exit, w3))
           | (other, w2) \<Rightarrow> (Exit, w2))
      | (other, w1) \<Rightarrow> (Exit, w1))"

text \<open>\<open>generateTrace\<close>: build over \<open>serviceNames\<close>, then \<open>return sendTrace(trace)\<close>.\<close>

definition generateTrace_tg :: "Config \<Rightarrow> Trace libs \<Rightarrow> trace_env \<Rightarrow> world \<Rightarrow> goerror option exec \<times> world" where
  "generateTrace_tg tracesConfig lib env w =
     (case buildTrace_tg serviceNames env w of
        (Ret (Inr trace), w1) \<Rightarrow> (case sendTrace_tg tracesConfig lib trace w1 of (r, w2) \<Rightarrow> (Ret r, w2))
      | (Ret (Inl err), w1) \<Rightarrow> (Ret (Some err), w1)
      | (other, w1) \<Rightarrow> (Exit, w1))"

definition generateTrace_lg :: "string \<Rightarrow> string \<Rightarrow> Trace libs \<Rightarrow> trace_env \<Rightarrow> world \<Rightarrow> goerror option exec \<times> world" where
  "generateTrace_lg endpoint authHeader lib env w =
     (case buildTrace_lg serviceNames env w of
        (Ret trace, w1) \<Rightarrow> (case sendTrace_lg endpoint authHeader lib trace w1 of (r, w2) \<Rightarrow> (Ret r, w2))
      | (other, w1) \<Rightarrow> (Exit, w1))"


subsection \<open>Vocabulary for the clock\<close>

text \<open>The clock reading that precedes the wait of child \<open>i\<close>: the start of the trace
  for the first child, the end stamp of the previous child otherwise.\<close>

fun reading :: "trace_env \<Rightarrow> nat \<Rightarrow> time" where
  "reading env 0 = clockStart env"
| "reading env (Suc i) = clockAfter (child env i)"

text \<open>A clock that does not run backwards and waits that last at least as long as asked:
  each child's end stamp is no earlier than the preceding reading plus the simulated
  duration, and the root's end stamp is no earlier than the last reading. All readings
  are instants an \<open>int64\<close> of nanoseconds can hold.\<close>

fun waits_ok :: "trace_env \<Rightarrow> nat \<Rightarrow> bool" where
  "waits_ok env 0 = True"
| "waits_ok env (Suc i) = (waits_ok env i \<and> reading env i + simulated (child env i) \<le> clockAfter (child env i))"

definition clock_ok :: "trace_env \<Rightarrow> nat \<Rightarrow> bool" where
  "clock_ok env n = (waits_ok env n \<and> reading env n \<le> clockEnd env
                      \<and> - (2 ^ 63) \<le> clockStart env \<and> clockEnd env < 2 ^ 63)"

subsection \<open>The trace a completed build returns\<close>

text \<open>A child span as it stands when its end has been stamped, and the trace of a build
  that ran to its end, written out from what the build read.\<close>

definition finished :: "string \<Rightarrow> Span \<Rightarrow> time \<Rightarrow> child_env \<Rightarrow> string \<Rightarrow> Span" where
  "finished traceID rootSpan now e service =
     (childSpan0 traceID rootSpan now e (case idRead e of Inr bs \<Rightarrow> hex16 bs | Inl err \<Rightarrow> '''') service)
       \<lparr>EndTime := UnixNano (clockAfter e)\<rparr>"

definition trace_of :: "string list \<Rightarrow> trace_env \<Rightarrow> Trace" where
  "trace_of services env =
     (let traceID = (case traceIdRead env of Inr bs \<Rightarrow> hex16 bs | Inl err \<Rightarrow> '''');
          rootSpan = rootSpan0 traceID (case rootIdRead env of Inr bs \<Rightarrow> hex16 bs | Inl err \<Rightarrow> '''') (clockStart env)
      in \<lparr>Spans = map (\<lambda>(k, service). finished traceID rootSpan (clockStart env) (child env k) service)
                       (zip [0..<length services] services)
                   @ [rootSpan\<lparr>EndTime := UnixNano (clockEnd env)\<rparr>]\<rparr>)"

section \<open>The \<open>main\<close> of \<open>log_generator.go\<close> and its shutdown\<close>

text \<open>What \<open>main\<close> holds for stopping the goroutines: the channel \<open>sigChan\<close> with the
  signals it buffers, the channel \<open>done\<close> (open or closed), the context it cancels, and
  its log lines.\<close>

record proc =
  sigChan :: "string list"
  done_closed :: bool
  ctx_cancelled :: bool
  lines :: "(string \<times> goarg list) list"

definition say :: "string \<Rightarrow> goarg list \<Rightarrow> proc \<Rightarrow> proc" where
  "say f args p = p\<lparr>lines := lines p @ [(f, args)]\<rparr>"

text \<open>\<open>signal.Notify(sigChan, SIGINT, SIGTERM)\<close> with \<open>sigChan\<close> made for one element:
  the runtime sends each arriving signal to the channel without blocking, so a signal
  that arrives while the channel holds one is lost.\<close>

definition notify :: "string \<Rightarrow> proc \<Rightarrow> proc" where
  "notify sig p = (if length (sigChan p) < 1 then p\<lparr>sigChan := sigChan p @ [sig]\<rparr> else p)"

text \<open>Go's \<open>close(ch)\<close>: closing a closed channel panics.\<close>

definition close_done :: "proc \<Rightarrow> panic + proc" where
  "close_done p = (if done_closed p then Inl CloseOfClosedChannel else Inr (p\<lparr>done_closed := True\<rparr>))"

text \<open>The \<open>cancel\<close> function of \<open>context.WithCancel\<close>: calls after the first do
  nothing.\<close>

definition cancel :: "proc \<Rightarrow> proc" where
  "cancel p = p\<lparr>ctx_cancelled := True\<rparr>"

text \<open>The \<open>select\<close> of \<open>main\<close>: it takes a signal from \<open>sigChan\<close> or finds the context
  done; with both ready either case may be taken, \<open>preferSignal\<close> says which; with
  neither ready it waits (\<open>None\<close>).\<close>

definition select_main :: "bool \<Rightarrow> proc \<Rightarrow> proc option" where
  "select_main preferSignal p =
     (case sigChan p of
        [] \<Rightarrow> (if ctx_cancelled p then Some (say ''Context cancelled'' [] p) else None)
      | sig # rest \<Rightarrow>
          (if ctx_cancelled p \<and> \<not> preferSignal then Some (say ''Context cancelled'' [] p)
           else Some (cancel (say ''Received signal: %v'' [AStr sig] (p\<lparr>sigChan := rest\<rparr>)))))"

text \<open>\<open>main\<close>, as its own goroutine runs. \<open>arrived\<close> are the signals that arrive before
  the \<open>select\<close> takes a case. \<open>traceGen\<close> is what \<open>startTraceGeneration()\<close> has returned
  by then, \<open>None\<close> while it runs; the goroutine that called it logs and cancels on an
  error. (The \<open>startTraceGeneration\<close> of \<open>log_generator.go\<close> waits on
  \<open>context.Background()\<close>, which is never done, and has no other \<open>return\<close>: it does not
  return.) After the \<open>select\<close> the shutdown sequence runs, once: \<open>close(done)\<close>, a log
  line, \<open>wg.Wait()\<close>, a log line. \<open>later\<close> are the signals that arrive while \<open>main\<close> is
  in \<open>wg.Wait()\<close>; nothing receives from \<open>sigChan\<close> any more. \<open>wg.Wait()\<close> returns when
  both goroutines have returned: \<open>logStops\<close> says whether \<open>generateLogData\<close> comes back
  to its \<open>select\<close> and returns on the closed \<open>done\<close>. The deferred \<open>cancel\<close> runs when
  \<open>main\<close> returns or panics.\<close>

definition main_lg :: "string list \<Rightarrow> goerror option option \<Rightarrow> bool \<Rightarrow> string list \<Rightarrow> bool \<Rightarrow> unit exec \<times> proc" where
  "main_lg arrived traceGen preferSignal later logStops =
     (let p = \<lparr>sigChan = [], done_closed = False, ctx_cancelled = False, lines = []\<rparr>;
          p = fold notify arrived p;
          p = (case traceGen of
                 Some (Some err) \<Rightarrow> cancel (say ''Trace generation failed: %v'' [AErr err] p)
               | _ \<Rightarrow> p)
      in case select_main preferSignal p of
           None \<Rightarrow> (Blocked, p)
         | Some p \<Rightarrow>
             (case close_done p of
                Inl pn \<Rightarrow> (Panic pn, cancel p)
              | Inr p \<Rightarrow>
                  (let p = say ''Waiting for goroutines to finish...'' [] p;
                       p = fold notify later p
                   in if logStops \<and> traceGen \<noteq> None
                      then (Ret (), cancel (say ''Shutdown complete'' [] p))
                      else (Blocked, p))))"

section \<open>Concrete inputs\<close>

text \<open>Inputs at which the theorems below are evaluated.\<close>

definition env0 :: "string \<Rightarrow> string" where
  "env0 k = (if k = ''LOG_RATE'' then ''0'' else if k = ''LOG_ENDPOINT'' then ''http://h/'' else '''')"

definition atoi0 :: "string \<Rightarrow> goerror + int" where
  "atoi0 s = (if s = ''0'' then Inr 0 else Inl (LibError ''invalid syntax''))"

definition world0 :: world where
  "world0 = \<lparr>totalBytesSent = 0, logged = [], printed = [], posted = []\<rparr>"

definition fake0 :: fakeit where
  "fake0 = \<lparr>Email = ''a@b.c'', HTTPMethod = ''GET'', UUID = ''u-1'', Username = ''bob'',
            Company = ''Acme'', FakeURL = ''http://x.y/''\<rparr>"

definition draws0 :: "nat \<Rightarrow> record_draws" where
  "draws0 i = \<lparr>sumOrder = weights, pickOrder = rev weights, levelRaw = 30 * i, jobRaw = i,
               templateRaw = 3 * i + 1, numRaw = 41, dbRaw = 2, fake = fake0\<rparr>"

definition rfc0 :: "time \<Rightarrow> string" where
  "rfc0 t = (if t = 0 then ''1970-01-01T00:00:00Z'' else ''later'')"

definition cfg0 :: config where
  "cfg0 = \<lparr>LogEndpoint = ''http://h/'', AuthHeader = ''k'', LogRate = 1, BatchSize = 2\<rparr>"

text \<open>Libraries that serialise every batch to the given bytes, create every request,
  and answer each request with the given status; and stub libraries whose
  \<open>json.Marshal\<close> returns an error, to run the branches that handle one
  (\<open>encoding/json\<close> itself returns none for a batch or a trace).\<close>

definition lib_ok :: "bytes \<Rightarrow> int \<Rightarrow> 'a libs" where
  "lib_ok data s = \<lparr>json_Marshal = (\<lambda>b. Inr data), http_NewRequest = (\<lambda>m u. None),
     client_Do = (\<lambda>q. Inr \<lparr>StatusCode = s, RespBody = [1, 2]\<rparr>)\<rparr>"


text \<open>An environment that configures a batch size of \<open>2^43\<close>, and a tick whose memory
  is obtained.\<close>

definition env_big :: "string \<Rightarrow> string" where
  "env_big k = (if k = ''BATCH_SIZE'' then ''8796093022208''
                else if k = ''LOG_ENDPOINT'' then ''http://h/'' else '''')"

definition atoi_big :: "string \<Rightarrow> goerror + int" where
  "atoi_big s = (if s = ''8796093022208'' then Inr 8796093022208 else Inl (LibError ''invalid syntax''))"

definition tick0 :: tick_env where
  "tick0 = \<lparr>tickNow = 0, granted = True, draws = draws0, net = lib_ok [1, 2, 3] 200\<rparr>"

definition trace0 :: Trace where
  "trace0 = \<lparr>Spans = []\<rparr>"

text \<open>A run of \<open>generateTrace\<close> that nothing interrupts: child \<open>i\<close> reads an identifier
  of bytes \<open>i + 1\<close>, starts 10 ms times \<open>i\<close> after the trace and ends 150 ms after the
  previous stamp.\<close>

definition child_e0 :: "nat \<Rightarrow> child_env" where
  "child_e0 i = \<lparr>ctxBefore = Active, idRead = Inr (replicate 16 (of_nat (i + 1))),
                jitterRaw = 10 * i, sleepRaw = 50, ctxInWait = Active,
                clockAfter = 1000 + 150000000 * (int i + 1)\<rparr>"

definition tenv0 :: trace_env where
  "tenv0 = \<lparr>traceIdRead = Inr (replicate 16 171), rootIdRead = Inr (replicate 16 205),
            clockStart = 1000, child = child_e0, clockEnd = 600002000\<rparr>"

text \<open>The same run with the context cancelled during the wait of the second child.\<close>

definition tenv_cancel :: trace_env where
  "tenv_cancel = tenv0\<lparr>child := (\<lambda>i. if i = 1 then (child_e0 i)\<lparr>ctxInWait := Done Canceled\<rparr> else child_e0 i)\<rparr>"

text \<open>The uninterrupted run on a clock that is set back during the first wait.\<close>

definition tenv_back :: trace_env where
  "tenv_back = tenv0\<lparr>child := (\<lambda>i. if i = 0 then (child_e0 i)\<lparr>clockAfter := 500\<rparr> else child_e0 i)\<rparr>"

section \<open>Header keys\<close>

lemma canonical_Content_Type: "CanonicalMIMEHeaderKey ''Content-Type'' = ''Content-Type''"
  by code_simp

lemma canonical_Authorization: "CanonicalMIMEHeaderKey ''Authorization'' = ''Authorization''"
  by code_simp


lemma Header_Set_Content_Type: "Header_Set ''Content-Type'' v [] = [(''Content-Type'', v)]"
  by (simp add: Header_Set_def canonical_Content_Type)


section \<open>The tick interval and the rate\<close>

lemma startTicker_zero: "startTicker 0 = Inl IntegerDivideByZero"
  by (simp add: startTicker_def go_quot_def)

lemma startTicker_Inr: "startTicker rate = Inr d \<Longrightarrow> 1 \<le> rate \<and> rate \<le> Second"
proof -
  assume a: "startTicker rate = Inr d"
  have nz: "rate \<noteq> 0" using a by (auto simp: startTicker_def go_quot_def)
  have pos: "0 < sgn Second * sgn rate * (\<bar>Second\<bar> div \<bar>rate\<bar>)"
    using a nz by (auto simp: startTicker_def go_quot_def NewTicker_def split: if_splits)
  have "0 < rate"
  proof (rule ccontr)
    assume "\<not> 0 < rate"
    with nz have "rate < 0" by simp
    then have "sgn Second * sgn rate * (\<bar>Second\<bar> div \<bar>rate\<bar>) \<le> 0"
      by (simp add: Second_def mult_le_0_iff pos_imp_zdiv_nonneg_iff)
    with pos show False by simp
  qed
  moreover have "rate \<le> Second"
  proof (rule ccontr)
    assume "\<not> rate \<le> Second"
    then have "\<bar>Second\<bar> div \<bar>rate\<bar> = 0" by (simp add: Second_def div_pos_pos_trivial)
    with pos show False by simp
  qed
  ultimately show ?thesis by simp
qed

lemma startTicker_ok:
  assumes "1 \<le> rate" and "rate \<le> Second"
  shows "startTicker rate = Inr (Second div rate)"
proof -
  have "0 < Second div rate"
    using assms by (simp add: pos_imp_zdiv_pos_iff)
  then show ?thesis
    using assms by (simp add: startTicker_def go_quot_def NewTicker_def Second_def)
qed

text \<open>
  C10. The loop divides one second by the configured rate without a guard. With the
  rate 0 \<open>generateLogData\<close> panics on the division before its first tick, in both
  files; a run of the loop that does not panic has a rate of at least 1. The rate 0 can
  be configured: whatever integer \<open>strconv.Atoi\<close> reads from \<open>LOG_RATE\<close> becomes the
  rate, in \<open>main.go\<close> and (given an endpoint) in \<open>log_generator.go\<close>. With that
  rate the \<open>main\<close> of \<open>log_generator.go\<close> starts its one loop, which panics; the
  \<open>main\<close> of \<open>main.go\<close> starts as many loops as the rate, hence none.
\<close>

theorem generateLogData_rate_precondition:
  "(LogRate cfg = 0 \<longrightarrow>
      generateLogData_main cfg rfc3339 es w = (Panic IntegerDivideByZero, w) \<and>
      generateLogData_lg cfg rfc3339 es w = (Panic IntegerDivideByZero, w))
   \<and> ((\<forall>p. fst (generateLogData_main cfg rfc3339 es w) \<noteq> Panic p) \<longrightarrow> 1 \<le> LogRate cfg)
   \<and> ((\<forall>p. fst (generateLogData_lg cfg rfc3339 es w) \<noteq> Panic p) \<longrightarrow> 1 \<le> LogRate cfg)
   \<and> (getenv ''LOG_RATE'' \<noteq> '''' \<and> atoi (getenv ''LOG_RATE'') = Inr r \<longrightarrow>
        LogRate (init_main getenv atoi) = r)
   \<and> (getenv ''LOG_ENDPOINT'' \<noteq> '''' \<and> atoi (getenv ''LOG_RATE'') = Inr r \<longrightarrow>
        (\<exists>c. init_lg getenv atoi = Ret c \<and> LogRate c = r))
   \<and> (LogRate cfg = 0 \<longrightarrow> loops_started_lg cfg = 1 \<and> loops_started_main cfg = 0)"
proof (intro conjI impI)
  assume "LogRate cfg = 0"
  then show "generateLogData_main cfg rfc3339 es w = (Panic IntegerDivideByZero, w)"
    by (simp add: generateLogData_main_def startTicker_zero)
next
  assume "LogRate cfg = 0"
  then show "generateLogData_lg cfg rfc3339 es w = (Panic IntegerDivideByZero, w)"
    by (simp add: generateLogData_lg_def startTicker_zero)
next
  assume np: "\<forall>p. fst (generateLogData_main cfg rfc3339 es w) \<noteq> Panic p"
  show "1 \<le> LogRate cfg"
  proof (cases "startTicker (LogRate cfg)")
    case (Inl p)
    with np show ?thesis by (simp add: generateLogData_main_def)
  next
    case (Inr d)
    then show ?thesis using startTicker_Inr by blast
  qed
next
  assume np: "\<forall>p. fst (generateLogData_lg cfg rfc3339 es w) \<noteq> Panic p"
  show "1 \<le> LogRate cfg"
  proof (cases "startTicker (LogRate cfg)")
    case (Inl p)
    with np show ?thesis by (simp add: generateLogData_lg_def)
  next
    case (Inr d)
    then show ?thesis using startTicker_Inr by blast
  qed
next
  assume "getenv ''LOG_RATE'' \<noteq> '''' \<and> atoi (getenv ''LOG_RATE'') = Inr r"
  then show "LogRate (init_main getenv atoi) = r"
    by (simp add: init_main_def Let_def)
next
  assume "getenv ''LOG_ENDPOINT'' \<noteq> '''' \<and> atoi (getenv ''LOG_RATE'') = Inr r"
  then show "\<exists>c. init_lg getenv atoi = Ret c \<and> LogRate c = r"
    by (simp add: init_lg_def getEnvInt_def)
next
  show "loops_started_lg cfg = 1" by (simp add: loops_started_lg_def)
next
  assume "LogRate cfg = 0"
  then show "loops_started_main cfg = 0" by (simp add: loops_started_main_def)
qed

theorem generateLogData_rate_precondition_witness:
  "LogRate (init_main env0 atoi0) = 0
   \<and> generateLogData_main (init_main env0 atoi0) (\<lambda>t. ''T'') [] world0 = (Panic IntegerDivideByZero, world0)
   \<and> generateLogData_lg (init_main env0 atoi0) (\<lambda>t. ''T'') [] world0 = (Panic IntegerDivideByZero, world0)
   \<and> init_lg env0 atoi0 = Ret (init_main env0 atoi0)
   \<and> fst (generateLogData_main ((init_main env0 atoi0)\<lparr>LogRate := 2\<rparr>) (\<lambda>t. ''T'') [DoneClosed] world0) = Ret ()
   \<and> 1 \<le> LogRate ((init_main env0 atoi0)\<lparr>LogRate := 2\<rparr>)
   \<and> loops_started_lg (init_main env0 atoi0) = 1
   \<and> loops_started_main (init_main env0 atoi0) = 0"
proof -
  have r0: "LogRate (init_main env0 atoi0) = 0"
    using generateLogData_rate_precondition [of _ _ _ _ env0 atoi0 0]
    by (simp add: env0_def atoi0_def)
  have p: "generateLogData_main (init_main env0 atoi0) (\<lambda>t. ''T'') [] world0 = (Panic IntegerDivideByZero, world0)
      \<and> generateLogData_lg (init_main env0 atoi0) (\<lambda>t. ''T'') [] world0 = (Panic IntegerDivideByZero, world0)"
    using generateLogData_rate_precondition [of "init_main env0 atoi0" "\<lambda>t. ''T''" "[]" world0] r0
    by blast
  have i: "init_lg env0 atoi0 = Ret (init_main env0 atoi0)"
    by (simp add: init_lg_def init_main_def getEnvInt_def env0_def atoi0_def)
  have "startTicker 2 = Inr (Second div 2)"
    by (rule startTicker_ok) (simp_all add: Second_def)
  then have d: "fst (generateLogData_main ((init_main env0 atoi0)\<lparr>LogRate := 2\<rparr>) (\<lambda>t. ''T'') [DoneClosed] world0) = Ret ()"
    by (simp add: generateLogData_main_def)
  then have "\<forall>p. fst (generateLogData_main ((init_main env0 atoi0)\<lparr>LogRate := 2\<rparr>) (\<lambda>t. ''T'') [DoneClosed] world0) \<noteq> Panic p"
    by simp
  then have g: "1 \<le> LogRate ((init_main env0 atoi0)\<lparr>LogRate := 2\<rparr>)"
    using generateLogData_rate_precondition
      [of "(init_main env0 atoi0)\<lparr>LogRate := 2\<rparr>" "\<lambda>t. ''T''" "[DoneClosed]" world0]
    by blast
  have l: "loops_started_lg (init_main env0 atoi0) = 1 \<and> loops_started_main (init_main env0 atoi0) = 0"
    using generateLogData_rate_precondition [of "init_main env0 atoi0" "\<lambda>t. ''T''" "[]" world0] r0
    by blast
  from r0 p i d g l show ?thesis by blast
qed

section \<open>The weighted level draw\<close>

lemma sum_weights_eq: "sum_weights ord acc = acc + sum_list (map snd ord)"
  by (induction ord arbitrary: acc) auto

lemma enumeration_total: "is_enumeration ord \<Longrightarrow> sum_weights ord 0 = 100"
proof -
  assume "is_enumeration ord"
  then have d: "distinct ord" and s: "set ord = set weights"
    by (simp_all add: is_enumeration_def)
  have "sum_list (map snd ord) = sum snd (set ord)"
    using d by (rule sum_list_distinct_conv_sum_set)
  also have "\<dots> = sum snd (set weights)" using s by simp
  also have "\<dots> = sum_list (map snd weights)"
    by (rule sum_list_distinct_conv_sum_set [symmetric]) (simp add: weights_def)
  also have "\<dots> = 100" by (simp add: weights_def)
  finally show ?thesis by (simp add: sum_weights_eq)
qed

lemma enumeration_length: "is_enumeration ord \<Longrightarrow> length ord = 4"
proof -
  assume "is_enumeration ord"
  then have d: "distinct ord" and s: "set ord = set weights"
    by (simp_all add: is_enumeration_def)
  have "length ord = card (set ord)" using d by (simp add: distinct_card)
  also have "\<dots> = card (set weights)" using s by simp
  also have "\<dots> = length weights"
    by (rule distinct_card) (simp add: weights_def)
  finally show ?thesis by (simp add: weights_def)
qed

lemma enumeration_levels: "is_enumeration ord \<Longrightarrow> k < length ord \<Longrightarrow> fst (ord ! k) \<in> levels"
proof -
  assume e: "is_enumeration ord" and k: "k < length ord"
  then have "ord ! k \<in> set weights" by (metis is_enumeration_def nth_mem)
  then show ?thesis by (auto simp: weights_def levels_def)
qed

lemma scan_lg_first:
  "current \<le> r \<Longrightarrow> r < current + sum_list (map snd ord) \<Longrightarrow>
   \<exists>k<length ord. scan_lg ord r current = Some (fst (ord ! k))
      \<and> r < current + cumulative ord k
      \<and> (\<forall>j<k. current + cumulative ord j \<le> r)"
proof (induction ord arbitrary: current)
  case Nil
  then show ?case by simp
next
  case (Cons e ord)
  obtain level weight where e: "e = (level, weight)" by (cases e)
  show ?case
  proof (cases "r < current + weight")
    case True
    then have "scan_lg (e # ord) r current = Some (fst ((e # ord) ! 0))
      \<and> r < current + cumulative (e # ord) 0 \<and> (\<forall>j<0. current + cumulative (e # ord) j \<le> r)"
      by (simp add: e cumulative_def)
    then show ?thesis by blast
  next
    case False
    with Cons.prems have r: "r < (current + weight) + sum_list (map snd ord)" by (simp add: e)
    from False have c: "current + weight \<le> r" by simp
    from Cons.IH [OF c r] obtain k where k: "k < length ord"
      "scan_lg ord r (current + weight) = Some (fst (ord ! k))"
      "r < current + weight + cumulative ord k"
      "\<forall>j<k. current + weight + cumulative ord j \<le> r" by blast
    have "\<forall>j<Suc k. current + cumulative (e # ord) j \<le> r"
    proof (intro allI impI)
      fix j assume "j < Suc k"
      show "current + cumulative (e # ord) j \<le> r"
      proof (cases j)
        case 0
        with False show ?thesis by (simp add: e cumulative_def)
      next
        case (Suc j')
        with \<open>j < Suc k\<close> k(4) show ?thesis by (simp add: e cumulative_def add.assoc)
      qed
    qed
    with k False have "Suc k < length (e # ord) \<and> scan_lg (e # ord) r current = Some (fst ((e # ord) ! Suc k))
      \<and> r < current + cumulative (e # ord) (Suc k) \<and> (\<forall>j<Suc k. current + cumulative (e # ord) j \<le> r)"
      by (simp add: e cumulative_def add.assoc)
    then show ?thesis by blast
  qed
qed

lemma scan_main_first:
  "current < r \<Longrightarrow> r \<le> current + sum_list (map snd ord) \<Longrightarrow>
   \<exists>k<length ord. scan_main ord r current = Some (fst (ord ! k))
      \<and> r \<le> current + cumulative ord k
      \<and> (\<forall>j<k. current + cumulative ord j < r)"
proof (induction ord arbitrary: current)
  case Nil
  then show ?case by simp
next
  case (Cons e ord)
  obtain level weight where e: "e = (level, weight)" by (cases e)
  show ?case
  proof (cases "r \<le> current + weight")
    case True
    then have "scan_main (e # ord) r current = Some (fst ((e # ord) ! 0))
      \<and> r \<le> current + cumulative (e # ord) 0 \<and> (\<forall>j<0. current + cumulative (e # ord) j < r)"
      by (simp add: e cumulative_def)
    then show ?thesis by blast
  next
    case False
    with Cons.prems have r: "r \<le> (current + weight) + sum_list (map snd ord)" by (simp add: e)
    from False have c: "current + weight < r" by simp
    from Cons.IH [OF c r] obtain k where k: "k < length ord"
      "scan_main ord r (current + weight) = Some (fst (ord ! k))"
      "r \<le> current + weight + cumulative ord k"
      "\<forall>j<k. current + weight + cumulative ord j < r" by blast
    have "\<forall>j<Suc k. current + cumulative (e # ord) j < r"
    proof (intro allI impI)
      fix j assume "j < Suc k"
      show "current + cumulative (e # ord) j < r"
      proof (cases j)
        case 0
        with False show ?thesis by (simp add: e cumulative_def)
      next
        case (Suc j')
        with \<open>j < Suc k\<close> k(4) show ?thesis by (simp add: e cumulative_def add.assoc)
      qed
    qed
    with k False have "Suc k < length (e # ord) \<and> scan_main (e # ord) r current = Some (fst ((e # ord) ! Suc k))
      \<and> r \<le> current + cumulative (e # ord) (Suc k) \<and> (\<forall>j<Suc k. current + cumulative (e # ord) j < r)"
      by (simp add: e cumulative_def add.assoc)
    then show ?thesis by blast
  qed
qed

lemma scan_shift: "scan_main ord (r + 1) current = scan_lg ord r current"
  by (induction ord r current rule: scan_lg.induct) auto

lemma draw_lg_range: "is_enumeration ord1 \<Longrightarrow> 0 \<le> draw_lg ord1 raw \<and> draw_lg ord1 raw < 100"
  by (simp add: draw_lg_def Intn_def enumeration_total)

lemma draw_main_eq: "is_enumeration ord1 \<Longrightarrow> draw_main ord1 raw = draw_lg ord1 raw + 1"
  by (simp add: draw_main_def draw_lg_def Intn_def IntRange_def enumeration_total)

text \<open>
  C7, as amended. Whatever orders the runtime enumerates the weight map in: the weights
  total 100; \<open>log_generator.go\<close> draws from \<open>[0, 100)\<close> and returns the first level of
  the enumeration whose cumulative weight exceeds the draw; \<open>main.go\<close> draws from
  \<open>[1, 100]\<close> and returns the first level whose cumulative weight is at least the
  draw; on the same raw draw and the same enumeration the two agree; the result is
  always one of the four levels.
\<close>

theorem getRandomLogLevel_weighted_draw:
  assumes "is_enumeration ord1" and "is_enumeration ord2"
  shows "sum_weights ord1 0 = 100
    \<and> 0 \<le> draw_lg ord1 raw \<and> draw_lg ord1 raw < 100
    \<and> (\<exists>k<length ord2. getRandomLogLevel_lg ord1 ord2 raw = fst (ord2 ! k)
          \<and> draw_lg ord1 raw < cumulative ord2 k
          \<and> (\<forall>j<k. cumulative ord2 j \<le> draw_lg ord1 raw))
    \<and> 1 \<le> draw_main ord1 raw \<and> draw_main ord1 raw \<le> 100
    \<and> (\<exists>k<length ord2. getRandomLogLevel_main ord1 ord2 raw = fst (ord2 ! k)
          \<and> draw_main ord1 raw \<le> cumulative ord2 k
          \<and> (\<forall>j<k. cumulative ord2 j < draw_main ord1 raw))
    \<and> getRandomLogLevel_main ord1 ord2 raw = getRandomLogLevel_lg ord1 ord2 raw
    \<and> getRandomLogLevel_lg ord1 ord2 raw \<in> levels"
proof -
  let ?r = "draw_lg ord1 raw"
  have tot: "sum_weights ord1 0 = 100" using assms(1) by (rule enumeration_total)
  have rng: "0 \<le> ?r \<and> ?r < 100" using assms(1) by (rule draw_lg_range)
  have m: "draw_main ord1 raw = ?r + 1" using assms(1) by (rule draw_main_eq)
  have s2: "sum_list (map snd ord2) = 100"
    using enumeration_total [OF assms(2)] by (simp add: sum_weights_eq)
  have "0 \<le> ?r" and "?r < 0 + sum_list (map snd ord2)" using rng s2 by simp_all
  from scan_lg_first [OF this] obtain k where k: "k < length ord2"
    "scan_lg ord2 ?r 0 = Some (fst (ord2 ! k))"
    "?r < cumulative ord2 k" "\<forall>j<k. cumulative ord2 j \<le> ?r" by auto
  have lg: "getRandomLogLevel_lg ord1 ord2 raw = fst (ord2 ! k)"
    using k(2) by (simp add: getRandomLogLevel_lg_def)
  have eq: "getRandomLogLevel_main ord1 ord2 raw = getRandomLogLevel_lg ord1 ord2 raw"
    by (simp add: getRandomLogLevel_main_def getRandomLogLevel_lg_def m scan_shift)
  have lv: "getRandomLogLevel_lg ord1 ord2 raw \<in> levels"
    using lg enumeration_levels [OF assms(2) k(1)] by simp
  have a: "\<exists>k<length ord2. getRandomLogLevel_lg ord1 ord2 raw = fst (ord2 ! k)
          \<and> ?r < cumulative ord2 k \<and> (\<forall>j<k. cumulative ord2 j \<le> ?r)"
    using k lg by blast
  have "\<forall>j<k. cumulative ord2 j < draw_main ord1 raw" using k(4) m by auto
  then have b: "\<exists>k<length ord2. getRandomLogLevel_main ord1 ord2 raw = fst (ord2 ! k)
          \<and> draw_main ord1 raw \<le> cumulative ord2 k
          \<and> (\<forall>j<k. cumulative ord2 j < draw_main ord1 raw)"
    using k lg eq m by auto
  have c: "1 \<le> draw_main ord1 raw \<and> draw_main ord1 raw \<le> 100" using rng m by simp
  from tot rng a b c eq lv show ?thesis by blast
qed

lemma is_enumeration_weights: "is_enumeration weights"
  by (simp add: is_enumeration_def weights_def)

lemma is_enumeration_rev: "is_enumeration (rev weights)"
  using is_enumeration_weights by (simp add: is_enumeration_def)

theorem getRandomLogLevel_weighted_draw_witness:
  "is_enumeration weights \<and> is_enumeration (rev weights)
   \<and> draw_lg weights 230 = 30 \<and> draw_main weights 230 = 31
   \<and> getRandomLogLevel_lg weights (rev weights) 230 = ''info''
   \<and> getRandomLogLevel_main weights (rev weights) 230 = ''info''
   \<and> getRandomLogLevel_lg weights (rev weights) 230 \<in> levels
   \<and> cumulative (rev weights) 1 = 25 \<and> cumulative (rev weights) 2 = 85"
proof -
  have v: "draw_lg weights 230 = 30 \<and> draw_main weights 230 = 31"
    by (simp add: draw_lg_def draw_main_def Intn_def IntRange_def weights_def)
  have l: "getRandomLogLevel_lg weights (rev weights) 230 = ''info''"
    by (simp add: getRandomLogLevel_lg_def draw_lg_def Intn_def weights_def)
  have c: "cumulative (rev weights) 1 = 25 \<and> cumulative (rev weights) 2 = 85"
    by (simp add: cumulative_def weights_def)
  from getRandomLogLevel_weighted_draw [OF is_enumeration_weights is_enumeration_rev, of 230]
  have "getRandomLogLevel_main weights (rev weights) 230 = getRandomLogLevel_lg weights (rev weights) 230"
    and "getRandomLogLevel_lg weights (rev weights) 230 \<in> levels" by blast+
  with v l c is_enumeration_weights is_enumeration_rev show ?thesis by simp
qed

text \<open>The claim as the specification words it fails on \<open>main.go\<close>: the raw draw 14 gives
  the draw 15 and the level \<open>debug\<close>, whose cumulative weight 15 does not exceed 15, and
  the raw draw 99 gives the draw 100, outside \<open>[0, 100)\<close>. Nor is the result a function
  of the draw alone: two enumerations of the map give different levels for one draw.\<close>

theorem nextLevel_as_stated_counterexample:
  "draw_main weights 14 = 15
   \<and> getRandomLogLevel_main weights weights 14 = ''debug''
   \<and> \<not> (draw_main weights 14 < cumulative weights 0)
   \<and> draw_main weights 99 = 100
   \<and> getRandomLogLevel_lg weights weights 10 = ''debug''
   \<and> getRandomLogLevel_lg weights (rev weights) 10 = ''warn''"
  by (simp add: draw_main_def draw_lg_def getRandomLogLevel_main_def getRandomLogLevel_lg_def
      IntRange_def Intn_def cumulative_def weights_def)

section \<open>The batch of one tick\<close>

lemma makeslice_LogRecord:
  "makeslice sizeof_LogRecord B g =
     (if B < 0 \<or> 2 ^ 42 < B then Panic MakesliceLenOutOfRange
      else if 0 < B \<and> \<not> g then Exit
      else Ret (nat B))"
  by (simp add: makeslice_def sizeof_LogRecord_def maxAlloc_def)

text \<open>
  C3, amended. \<open>make([]LogRecord, B)\<close> has an upper limit as well as a lower one: at 64
  bytes a record, more than \<open>2^42\<close> records pass the allocator's \<open>2^48\<close> bytes and
  \<open>make\<close> panics, as it does for \<open>B < 0\<close>. For every batch size \<open>0 \<le> B \<le> 2^42\<close> whose
  memory the runtime obtains (a batch of no records needs none) the tick builds a batch
  of exactly \<open>B\<close> records, in both files, and every record of the batch carries the one
  timestamp formatted from the clock reading taken before the records are built. When
  the memory is not obtained the process ends.
\<close>

theorem batch_has_B_records_one_timestamp:
  "(0 \<le> B \<and> B \<le> 2 ^ 42 \<and> (g \<or> B = 0) \<longrightarrow>
      (\<exists>batch. batch_main B g rfc3339 now ds = Ret batch \<and> int (length batch) = B
          \<and> (\<forall>i<length batch. Timestamp (batch ! i) = rfc3339 now))
    \<and> (\<exists>batch. batch_lg B g rfc3339 now ds = Ret batch \<and> int (length batch) = B
          \<and> (\<forall>i<length batch. Timestamp (batch ! i) = rfc3339 now)))
   \<and> (B < 0 \<or> 2 ^ 42 < B \<longrightarrow>
        batch_main B g rfc3339 now ds = Panic MakesliceLenOutOfRange
      \<and> batch_lg B g rfc3339 now ds = Panic MakesliceLenOutOfRange)
   \<and> (0 < B \<and> B \<le> 2 ^ 42 \<and> \<not> g \<longrightarrow>
        batch_main B g rfc3339 now ds = Exit \<and> batch_lg B g rfc3339 now ds = Exit)"
proof (intro conjI impI)
  assume a: "0 \<le> B \<and> B \<le> 2 ^ 42 \<and> (g \<or> B = 0)"
  then have m: "makeslice sizeof_LogRecord B g = Ret (nat B)"
    by (auto simp add: makeslice_LogRecord)
  let ?b = "map (\<lambda>i. record_main rfc3339 now (ds i)) [0..<nat B]"
  have "batch_main B g rfc3339 now ds = Ret ?b" using m by (simp add: batch_main_def)
  moreover have "int (length ?b) = B" using a by simp
  moreover have "\<forall>i<length ?b. Timestamp (?b ! i) = rfc3339 now"
    by (simp add: record_main_def)
  ultimately show "\<exists>batch. batch_main B g rfc3339 now ds = Ret batch \<and> int (length batch) = B
            \<and> (\<forall>i<length batch. Timestamp (batch ! i) = rfc3339 now)" by fast
  let ?c = "map (\<lambda>i. record_lg rfc3339 now (ds i)) [0..<nat B]"
  have "batch_lg B g rfc3339 now ds = Ret ?c" using m by (simp add: batch_lg_def)
  moreover have "int (length ?c) = B" using a by simp
  moreover have "\<forall>i<length ?c. Timestamp (?c ! i) = rfc3339 now"
    by (simp add: record_lg_def)
  ultimately show "\<exists>batch. batch_lg B g rfc3339 now ds = Ret batch \<and> int (length batch) = B
            \<and> (\<forall>i<length batch. Timestamp (batch ! i) = rfc3339 now)" by fast
next
  assume "B < 0 \<or> 2 ^ 42 < B"
  then have m: "makeslice sizeof_LogRecord B g = Panic MakesliceLenOutOfRange"
    by (simp add: makeslice_LogRecord)
  show "batch_main B g rfc3339 now ds = Panic MakesliceLenOutOfRange"
    using m by (simp add: batch_main_def)
  show "batch_lg B g rfc3339 now ds = Panic MakesliceLenOutOfRange"
    using m by (simp add: batch_lg_def)
next
  assume "0 < B \<and> B \<le> 2 ^ 42 \<and> \<not> g"
  then have m: "makeslice sizeof_LogRecord B g = Exit"
    by (simp add: makeslice_LogRecord)
  show "batch_main B g rfc3339 now ds = Exit" using m by (simp add: batch_main_def)
  show "batch_lg B g rfc3339 now ds = Exit" using m by (simp add: batch_lg_def)
qed

theorem batch_has_B_records_one_timestamp_witness:
  "(\<exists>batch. batch_main 3 True rfc0 0 draws0 = Ret batch \<and> int (length batch) = 3
         \<and> map Timestamp batch = replicate 3 ''1970-01-01T00:00:00Z'')
   \<and> batch_lg 0 False rfc0 0 draws0 = Ret []
   \<and> batch_main (- 1) True rfc0 0 draws0 = Panic MakesliceLenOutOfRange
   \<and> batch_lg 3 False rfc0 0 draws0 = Exit"
proof -
  have "(0::int) \<le> 3 \<and> (3::int) \<le> 2 ^ 42 \<and> (True \<or> (3::int) = 0)" by simp
  with batch_has_B_records_one_timestamp [of 3 True rfc0 0 draws0]
  obtain batch where b: "batch_main 3 True rfc0 0 draws0 = Ret batch" "int (length batch) = 3"
    "\<forall>i<length batch. Timestamp (batch ! i) = rfc0 0" by fast
  have "length batch = 3" using b(2) by simp
  with b(3) have "map Timestamp batch = replicate 3 ''1970-01-01T00:00:00Z''"
    by (intro nth_equalityI) (simp_all add: rfc0_def)
  with b have m: "\<exists>batch. batch_main 3 True rfc0 0 draws0 = Ret batch \<and> int (length batch) = 3
         \<and> map Timestamp batch = replicate 3 ''1970-01-01T00:00:00Z''" by fast
  have "(0::int) \<le> 0 \<and> (0::int) \<le> 2 ^ 42 \<and> (False \<or> (0::int) = 0)" by simp
  with batch_has_B_records_one_timestamp [of 0 False rfc0 0 draws0]
  have z: "batch_lg 0 False rfc0 0 draws0 = Ret []" by auto
  have "(- 1 :: int) < 0 \<or> 2 ^ 42 < (- 1 :: int)" by simp
  with batch_has_B_records_one_timestamp [of "- 1" True rfc0 0 draws0]
  have n: "batch_main (- 1) True rfc0 0 draws0 = Panic MakesliceLenOutOfRange" by fast
  have "(0::int) < 3 \<and> (3::int) \<le> 2 ^ 42 \<and> \<not> False" by simp
  with batch_has_B_records_one_timestamp [of 3 False rfc0 0 draws0]
  have e: "batch_lg 3 False rfc0 0 draws0 = Exit" by fast
  from m z n e show ?thesis by fast
qed

text \<open>The claim as the specification words it (every \<open>B \<ge> 0\<close>) fails: with
  \<open>BATCH_SIZE=8796093022208\<close>, which is \<open>2^43\<close> and which \<open>strconv.Atoi\<close> accepts, the
  configured batch size is not negative and the first tick panics in \<open>make\<close>, in both
  files, before any record is built.\<close>

theorem batch_size_beyond_maxAlloc_counterexample:
  "BatchSize (init_main env_big atoi_big) = 2 ^ 43
   \<and> init_lg env_big atoi_big = Ret (init_main env_big atoi_big)
   \<and> (0::int) \<le> 2 ^ 43
   \<and> batch_main (2 ^ 43) True rfc0 0 draws0 = Panic MakesliceLenOutOfRange
   \<and> batch_lg (2 ^ 43) True rfc0 0 draws0 = Panic MakesliceLenOutOfRange
   \<and> tick_main (init_main env_big atoi_big) rfc0 tick0 world0 = (Panic MakesliceLenOutOfRange, world0)
   \<and> tick_lg (init_main env_big atoi_big) rfc0 tick0 world0 = (Panic MakesliceLenOutOfRange, world0)"
  by (simp add: init_main_def init_lg_def getEnvInt_def env_big_def atoi_big_def
      batch_main_def batch_lg_def tick_main_def tick_lg_def tick0_def makeslice_LogRecord)

section \<open>Sending: the byte counter\<close>

lemma sint_int64: "- (2 ^ 63) \<le> x \<Longrightarrow> x < 2 ^ 63 \<Longrightarrow> sint (word_of_int x :: int64) = x"
  by (simp add: sint_sbintrunc' signed_take_bit_int_eq_self)

lemma main_counter:
  "totalBytesSent (sendLogBatch_main cfg lib batch w) =
     totalBytesSent w + (case delivered accepts_main cfg lib batch of
                           Some data \<Rightarrow> of_nat (length data) | None \<Rightarrow> 0)"
  by (simp add: sendLogBatch_main_def delivered_def accepts_main_def log_Printf_def Let_def
      split: sum.splits option.splits)

lemma lg_counter:
  "totalBytesSent (snd (sendLogBatch_lg cfg lib batch w)) =
     totalBytesSent w + (case delivered accepts_lg cfg lib batch of
                           Some data \<Rightarrow> of_nat (length data) | None \<Rightarrow> 0)"
  by (simp add: sendLogBatch_lg_def delivered_def accepts_lg_def Let_def
      split: sum.splits option.splits)

lemma lg_result:
  "(fst (sendLogBatch_lg cfg lib batch w) = None) = (delivered accepts_lg cfg lib batch \<noteq> None)"
  by (simp add: sendLogBatch_lg_def delivered_def accepts_lg_def Let_def
      split: sum.splits option.splits)

lemma main_logged:
  "(logged (sendLogBatch_main cfg lib batch w) = logged w) = (delivered accepts_main cfg lib batch \<noteq> None)"
  by (simp add: sendLogBatch_main_def delivered_def accepts_main_def log_Printf_def Let_def
      split: sum.splits option.splits)

text \<open>
  C2. A send adds to \<open>totalBytesSent\<close> exactly the length of the serialised payload
  when the delivery succeeds and leaves it as it was on every failure (serialisation,
  request creation, transport, rejected status); in \<open>log_generator.go\<close> the send returns
  no error exactly when the delivery succeeds, in \<open>main.go\<close> it writes no log line
  exactly then. After two successful sends of \<open>X\<close> and \<open>Y\<close> bytes the counter has grown
  by \<open>X + Y\<close>; started at 0 it reads \<open>X + Y\<close> (as the \<open>int64\<close> it is, for
  \<open>X + Y < 2^63\<close>).
\<close>

theorem sendLogBatch_counts_delivered_bytes:
  "totalBytesSent (sendLogBatch_main cfg lib batch w) =
     totalBytesSent w + (case delivered accepts_main cfg lib batch of
                           Some data \<Rightarrow> of_nat (length data) | None \<Rightarrow> 0)
   \<and> ((logged (sendLogBatch_main cfg lib batch w) = logged w) = (delivered accepts_main cfg lib batch \<noteq> None))
   \<and> totalBytesSent (snd (sendLogBatch_lg cfg lib batch w)) =
     totalBytesSent w + (case delivered accepts_lg cfg lib batch of
                           Some data \<Rightarrow> of_nat (length data) | None \<Rightarrow> 0)
   \<and> ((fst (sendLogBatch_lg cfg lib batch w) = None) = (delivered accepts_lg cfg lib batch \<noteq> None))
   \<and> (delivered accepts_main cfg lib batch = Some dx \<and> delivered accepts_main cfg lib' batch' = Some dy \<longrightarrow>
        totalBytesSent (sendLogBatch_main cfg lib' batch' (sendLogBatch_main cfg lib batch w)) =
          totalBytesSent w + of_nat (length dx + length dy)
        \<and> (totalBytesSent w = 0 \<and> length dx + length dy < 2 ^ 63 \<longrightarrow>
             sint (totalBytesSent (sendLogBatch_main cfg lib' batch' (sendLogBatch_main cfg lib batch w))) =
               int (length dx + length dy)))
   \<and> (delivered accepts_lg cfg lib batch = Some dx \<and> delivered accepts_lg cfg lib' batch' = Some dy \<longrightarrow>
        totalBytesSent (snd (sendLogBatch_lg cfg lib' batch' (snd (sendLogBatch_lg cfg lib batch w)))) =
          totalBytesSent w + of_nat (length dx + length dy)
        \<and> (totalBytesSent w = 0 \<and> length dx + length dy < 2 ^ 63 \<longrightarrow>
             sint (totalBytesSent (snd (sendLogBatch_lg cfg lib' batch' (snd (sendLogBatch_lg cfg lib batch w))))) =
               int (length dx + length dy)))"
proof -
  have s: "sint (word_of_nat n :: int64) = int n" if "n < 2 ^ 63" for n
  proof -
    have "int n < 2 ^ 63" using that by (metis of_nat_less_numeral_power_cancel_iff)
    then have "sint (word_of_int (int n) :: int64) = int n" by (intro sint_int64) simp_all
    then show ?thesis by simp
  qed
  have two_main: "totalBytesSent (sendLogBatch_main cfg lib' batch' (sendLogBatch_main cfg lib batch w)) =
          totalBytesSent w + of_nat (length dx + length dy)"
    if "delivered accepts_main cfg lib batch = Some dx" "delivered accepts_main cfg lib' batch' = Some dy"
    using that by (simp add: main_counter)
  have two_lg: "totalBytesSent (snd (sendLogBatch_lg cfg lib' batch' (snd (sendLogBatch_lg cfg lib batch w)))) =
          totalBytesSent w + of_nat (length dx + length dy)"
    if "delivered accepts_lg cfg lib batch = Some dx" "delivered accepts_lg cfg lib' batch' = Some dy"
    using that by (simp add: lg_counter)
  show ?thesis
    using main_counter [of cfg lib batch w] main_logged [of cfg lib batch w]
      lg_counter [of cfg lib batch w] lg_result [of cfg lib batch w]
      two_main two_lg s [of "length dx + length dy"]
    by simp
qed

theorem sendLogBatch_counts_delivered_bytes_witness:
  "delivered accepts_main cfg0 (lib_ok [7, 7, 7] 200) [] = Some [7, 7, 7]
   \<and> delivered accepts_main cfg0 (lib_ok [1, 2, 3, 4, 5] 201) [] = Some [1, 2, 3, 4, 5]
   \<and> sint (totalBytesSent (sendLogBatch_main cfg0 (lib_ok [1, 2, 3, 4, 5] 201) []
             (sendLogBatch_main cfg0 (lib_ok [7, 7, 7] 200) [] world0))) = 8
   \<and> delivered accepts_lg cfg0 (lib_ok [7, 7, 7] 500) [] = None
   \<and> totalBytesSent (snd (sendLogBatch_lg cfg0 (lib_ok [7, 7, 7] 500) [] world0)) = 0
   \<and> fst (sendLogBatch_lg cfg0 (lib_ok [7, 7, 7] 500) [] world0) \<noteq> None"
proof -
  have a: "delivered accepts_main cfg0 (lib_ok [7, 7, 7] 200) [] = Some [7, 7, 7]"
    by (simp add: delivered_def lib_ok_def accepts_main_def)
  have b: "delivered accepts_main cfg0 (lib_ok [1, 2, 3, 4, 5] 201) [] = Some [1, 2, 3, 4, 5]"
    by (simp add: delivered_def lib_ok_def accepts_main_def)
  have c: "delivered accepts_lg cfg0 (lib_ok [7, 7, 7] 500) [] = None"
    by (simp add: delivered_def lib_ok_def accepts_lg_def)
  have z: "totalBytesSent world0 = 0" by (simp add: world0_def)
  have "sint (totalBytesSent (sendLogBatch_main cfg0 (lib_ok [1, 2, 3, 4, 5] 201) []
             (sendLogBatch_main cfg0 (lib_ok [7, 7, 7] 200) [] world0))) = 8"
    using sendLogBatch_counts_delivered_bytes
      [of cfg0 "lib_ok [7, 7, 7] 200" "[]" world0 "[7, 7, 7]" "lib_ok [1, 2, 3, 4, 5] 201" "[]" "[1, 2, 3, 4, 5]"]
      a b z by simp
  moreover have "totalBytesSent (snd (sendLogBatch_lg cfg0 (lib_ok [7, 7, 7] 500) [] world0)) = 0
     \<and> fst (sendLogBatch_lg cfg0 (lib_ok [7, 7, 7] 500) [] world0) \<noteq> None"
    using sendLogBatch_counts_delivered_bytes [of cfg0 "lib_ok [7, 7, 7] 500" "[]" world0] c z
    by simp
  ultimately show ?thesis using a b c by blast
qed

section \<open>Sending: the status of the response\<close>

lemma main_status:
  assumes "json_Marshal lib batch = Inr data"
    and "http_NewRequest lib ''POST'' (LogEndpoint cfg) = None"
    and "client_Do lib (logRequest cfg data) = Inr resp"
  shows "sendLogBatch_main cfg lib batch w =
     (if StatusCode resp = 200 \<or> StatusCode resp = 201
      then w\<lparr>posted := posted w @ [logRequest cfg data],
             totalBytesSent := totalBytesSent w + of_nat (length data)\<rparr>
      else w\<lparr>posted := posted w @ [logRequest cfg data],
             logged := logged w @ [(''unexpected status code: %d'', [AInt (StatusCode resp)])]\<rparr>)"
  using assms by (simp add: sendLogBatch_main_def log_Printf_def Let_def)

lemma lg_status:
  assumes "json_Marshal lib batch = Inr data"
    and "http_NewRequest lib ''POST'' (LogEndpoint cfg) = None"
    and "client_Do lib (logRequest cfg data) = Inr resp"
  shows "sendLogBatch_lg cfg lib batch w =
     (if StatusCode resp < 400
      then (None, w\<lparr>posted := posted w @ [logRequest cfg data],
                    totalBytesSent := totalBytesSent w + of_nat (length data)\<rparr>)
      else (Some (Errorf ''server returned error status: %d'' (AInt (StatusCode resp))),
            w\<lparr>posted := posted w @ [logRequest cfg data]\<rparr>))"
  using assms by (simp add: sendLogBatch_lg_def Let_def)

lemma sendTrace_tg_status:
  assumes "http_NewRequest tlib ''POST'' (Endpoint tc) = None"
    and "\<And>q. client_Do tlib q = Inr resp"
  shows "fst (sendTrace_tg tc tlib trace w) =
     (if StatusCode resp = 200 then None
      else Some (Errorf ''unexpected status code: %d'' (AInt (StatusCode resp))))"
  using assms by (simp add: sendTrace_tg_def Let_def)

lemma sendTrace_lg_status:
  assumes "json_Marshal tlib trace = Inr payload"
    and "http_NewRequest tlib ''POST'' endpoint = None"
    and "\<And>q. client_Do tlib q = Inr resp"
  shows "fst (sendTrace_lg endpoint auth tlib trace w) =
     (if StatusCode resp = 200 then None
      else Some (Errorf ''unexpected status code: %d'' (AInt (StatusCode resp))))"
  using assms by (simp add: sendTrace_lg_def Let_def)

text \<open>
  C1, as amended. When a response arrives, each sender decides by its status alone, and
  the senders differ in the statuses they accept: \<open>sendLogBatch\<close> of \<open>main.go\<close> accepts
  200 and 201, \<open>sendLogBatch\<close> of \<open>log_generator.go\<close> every status below 400, and
  \<open>sendTrace\<close> (both files) only 200. Any other status is a failure that carries the
  status code: a log line in \<open>main.go\<close>, a returned error elsewhere. The body of the
  response has no influence: two responses with the same status give the same result.
\<close>

theorem send_classifies_by_status:
  assumes "json_Marshal lib batch = Inr data"
    and "http_NewRequest lib ''POST'' (LogEndpoint cfg) = None"
    and "client_Do lib (logRequest cfg data) = Inr resp"
    and "json_Marshal tlib trace = Inr payload"
    and "http_NewRequest tlib ''POST'' (Endpoint tc) = None"
    and "\<And>q. client_Do tlib q = Inr resp"
  shows "sendLogBatch_main cfg lib batch w =
     (if StatusCode resp = 200 \<or> StatusCode resp = 201
      then w\<lparr>posted := posted w @ [logRequest cfg data],
             totalBytesSent := totalBytesSent w + of_nat (length data)\<rparr>
      else w\<lparr>posted := posted w @ [logRequest cfg data],
             logged := logged w @ [(''unexpected status code: %d'', [AInt (StatusCode resp)])]\<rparr>)
   \<and> sendLogBatch_lg cfg lib batch w =
     (if StatusCode resp < 400
      then (None, w\<lparr>posted := posted w @ [logRequest cfg data],
                    totalBytesSent := totalBytesSent w + of_nat (length data)\<rparr>)
      else (Some (Errorf ''server returned error status: %d'' (AInt (StatusCode resp))),
            w\<lparr>posted := posted w @ [logRequest cfg data]\<rparr>))
   \<and> fst (sendTrace_tg tc tlib trace w) =
     (if StatusCode resp = 200 then None
      else Some (Errorf ''unexpected status code: %d'' (AInt (StatusCode resp))))
   \<and> fst (sendTrace_lg (Endpoint tc) auth tlib trace w) =
     (if StatusCode resp = 200 then None
      else Some (Errorf ''unexpected status code: %d'' (AInt (StatusCode resp))))
   \<and> sendLogBatch_main cfg (lib\<lparr>client_Do := \<lambda>q. Inr (resp\<lparr>RespBody := body\<rparr>)\<rparr>) batch w =
       sendLogBatch_main cfg lib batch w
   \<and> sendLogBatch_lg cfg (lib\<lparr>client_Do := \<lambda>q. Inr (resp\<lparr>RespBody := body\<rparr>)\<rparr>) batch w =
       sendLogBatch_lg cfg lib batch w
   \<and> sendTrace_tg tc (tlib\<lparr>client_Do := \<lambda>q. Inr (resp\<lparr>RespBody := body\<rparr>)\<rparr>) trace w =
       sendTrace_tg tc tlib trace w
   \<and> sendTrace_lg (Endpoint tc) auth (tlib\<lparr>client_Do := \<lambda>q. Inr (resp\<lparr>RespBody := body\<rparr>)\<rparr>) trace w =
       sendTrace_lg (Endpoint tc) auth tlib trace w"
proof (intro conjI)
  show "sendLogBatch_main cfg lib batch w =
     (if StatusCode resp = 200 \<or> StatusCode resp = 201
      then w\<lparr>posted := posted w @ [logRequest cfg data],
             totalBytesSent := totalBytesSent w + of_nat (length data)\<rparr>
      else w\<lparr>posted := posted w @ [logRequest cfg data],
             logged := logged w @ [(''unexpected status code: %d'', [AInt (StatusCode resp)])]\<rparr>)"
    using assms(1-3) by (rule main_status)
  show "sendLogBatch_lg cfg lib batch w =
     (if StatusCode resp < 400
      then (None, w\<lparr>posted := posted w @ [logRequest cfg data],
                    totalBytesSent := totalBytesSent w + of_nat (length data)\<rparr>)
      else (Some (Errorf ''server returned error status: %d'' (AInt (StatusCode resp))),
            w\<lparr>posted := posted w @ [logRequest cfg data]\<rparr>))"
    using assms(1-3) by (rule lg_status)
  show "fst (sendTrace_tg tc tlib trace w) =
     (if StatusCode resp = 200 then None
      else Some (Errorf ''unexpected status code: %d'' (AInt (StatusCode resp))))"
    using assms(5,6) by (rule sendTrace_tg_status)
  show "fst (sendTrace_lg (Endpoint tc) auth tlib trace w) =
     (if StatusCode resp = 200 then None
      else Some (Errorf ''unexpected status code: %d'' (AInt (StatusCode resp))))"
    using assms(4-6) by (rule sendTrace_lg_status)
  show "sendLogBatch_main cfg (lib\<lparr>client_Do := \<lambda>q. Inr (resp\<lparr>RespBody := body\<rparr>)\<rparr>) batch w =
       sendLogBatch_main cfg lib batch w"
    using assms(1-3) by (simp add: sendLogBatch_main_def Let_def)
  show "sendLogBatch_lg cfg (lib\<lparr>client_Do := \<lambda>q. Inr (resp\<lparr>RespBody := body\<rparr>)\<rparr>) batch w =
       sendLogBatch_lg cfg lib batch w"
    using assms(1-3) by (simp add: sendLogBatch_lg_def Let_def)
  show "sendTrace_tg tc (tlib\<lparr>client_Do := \<lambda>q. Inr (resp\<lparr>RespBody := body\<rparr>)\<rparr>) trace w =
       sendTrace_tg tc tlib trace w"
    using assms(4-6) by (simp add: sendTrace_tg_def Let_def)
  show "sendTrace_lg (Endpoint tc) auth (tlib\<lparr>client_Do := \<lambda>q. Inr (resp\<lparr>RespBody := body\<rparr>)\<rparr>) trace w =
       sendTrace_lg (Endpoint tc) auth tlib trace w"
    using assms(4-6) by (simp add: sendTrace_lg_def Let_def)
qed

theorem send_classifies_by_status_witness:
  "sendLogBatch_main cfg0 (lib_ok [7, 7, 7] 404) [] world0 =
     world0\<lparr>posted := [logRequest cfg0 [7, 7, 7]],
            logged := [(''unexpected status code: %d'', [AInt 404])]\<rparr>
   \<and> sendLogBatch_lg cfg0 (lib_ok [7, 7, 7] 404) [] world0 =
       (Some (Errorf ''server returned error status: %d'' (AInt 404)),
        world0\<lparr>posted := [logRequest cfg0 [7, 7, 7]]\<rparr>)
   \<and> fst (sendTrace_tg defaultConfig (lib_ok [9] 404) trace0 world0) =
       Some (Errorf ''unexpected status code: %d'' (AInt 404))
   \<and> fst (sendTrace_lg (Endpoint defaultConfig) ''k'' (lib_ok [9] 404) trace0 world0) =
       Some (Errorf ''unexpected status code: %d'' (AInt 404))
   \<and> sendLogBatch_lg cfg0 ((lib_ok [7, 7, 7] 404)\<lparr>client_Do := \<lambda>q. Inr \<lparr>StatusCode = 404, RespBody = [5]\<rparr>\<rparr>) [] world0 =
       sendLogBatch_lg cfg0 (lib_ok [7, 7, 7] 404) [] world0"
proof -
  have 1: "json_Marshal (lib_ok [7, 7, 7] 404) [] = Inr [7, 7, 7]" by (simp add: lib_ok_def)
  have 2: "http_NewRequest (lib_ok [7, 7, 7] 404) ''POST'' (LogEndpoint cfg0) = None"
    by (simp add: lib_ok_def)
  have 3: "client_Do (lib_ok [7, 7, 7] 404) (logRequest cfg0 [7, 7, 7]) = Inr \<lparr>StatusCode = 404, RespBody = [1, 2]\<rparr>"
    by (simp add: lib_ok_def)
  have 4: "json_Marshal (lib_ok [9] 404) trace0 = Inr [9]" by (simp add: lib_ok_def)
  have 5: "http_NewRequest (lib_ok [9] 404) ''POST'' (Endpoint defaultConfig) = None"
    by (simp add: lib_ok_def)
  have 6: "\<And>q. client_Do (lib_ok [9] 404) q = Inr \<lparr>StatusCode = 404, RespBody = [1, 2]\<rparr>"
    by (simp add: lib_ok_def)
  show ?thesis
    using send_classifies_by_status [OF 1 2 3 4 5 6, of world0 "''k''" "[5]"]
    by (simp add: world0_def)
qed

text \<open>The claim as the specification words it (success is any 2xx status, failure any
  other) fails in each sender: \<open>main.go\<close> rejects 204, \<open>log_generator.go\<close> accepts 304
  and counts the payload, \<open>sendTrace\<close> rejects 201.\<close>

theorem status_2xx_counterexample:
  "is_2xx 204
   \<and> logged (sendLogBatch_main cfg0 (lib_ok [7, 7, 7] 204) [] world0) =
       [(''unexpected status code: %d'', [AInt 204])]
   \<and> totalBytesSent (sendLogBatch_main cfg0 (lib_ok [7, 7, 7] 204) [] world0) = 0
   \<and> \<not> is_2xx 304
   \<and> fst (sendLogBatch_lg cfg0 (lib_ok [7, 7, 7] 304) [] world0) = None
   \<and> totalBytesSent (snd (sendLogBatch_lg cfg0 (lib_ok [7, 7, 7] 304) [] world0)) = 3
   \<and> is_2xx 201
   \<and> fst (sendTrace_tg defaultConfig (lib_ok [9] 201) trace0 world0) =
       Some (Errorf ''unexpected status code: %d'' (AInt 201))
   \<and> fst (sendTrace_lg (Endpoint defaultConfig) '''' (lib_ok [9] 201) trace0 world0) =
       Some (Errorf ''unexpected status code: %d'' (AInt 201))"
  by (simp add: is_2xx_def sendLogBatch_main_def sendLogBatch_lg_def sendTrace_tg_def
      sendTrace_lg_def lib_ok_def world0_def log_Printf_def Let_def)

section \<open>Building a trace\<close>

lemma generateRandomID_Ret:
  "generateRandomID rd w = (Ret s, w') \<Longrightarrow> (\<exists>bs. rd = Inr bs \<and> s = hex16 bs) \<and> w' = w"
  by (auto simp: generateRandomID_def split: sum.splits)

lemma length_hex16: "length (hex16 bs) = 32"
proof -
  have l: "length (concat (map hex_byte xs)) = 2 * length xs" for xs
    by (induction xs) (simp_all add: hex_byte_def)
  show ?thesis unfolding hex16_def l by simp
qed

lemma children_tg_built:
  "children_tg traceID rootSpan now env i services spans w = (Ret (Inr out), w') \<Longrightarrow>
   out = spans @ map (\<lambda>(k, service). finished traceID rootSpan now (env k) service)
                     (zip [i..<i + length services] services)"
proof (induction services arbitrary: i spans w)
  case Nil
  then show ?case by simp
next
  case (Cons service rest)
  from Cons.prems obtain spanID w1 where
    a: "ctxBefore (env i) = Active" "generateRandomID (idRead (env i)) w = (Ret spanID, w1)"
       "ctxInWait (env i) = Active"
    and r: "children_tg traceID rootSpan now env (Suc i) rest
         (spans @ [(childSpan0 traceID rootSpan now (env i) spanID service)\<lparr>EndTime := UnixNano (clockAfter (env i))\<rparr>]) w1
         = (Ret (Inr out), w')"
    by (auto simp: Let_def split: ctx_state.splits prod.splits exec.splits)
  from generateRandomID_Ret [OF a(2)] obtain bs where bs: "idRead (env i) = Inr bs" "spanID = hex16 bs"
    by blast
  have f: "(childSpan0 traceID rootSpan now (env i) spanID service)\<lparr>EndTime := UnixNano (clockAfter (env i))\<rparr>
        = finished traceID rootSpan now (env i) service"
    by (simp add: finished_def bs)
  have u: "[i..<Suc (i + length rest)] = i # [Suc i..<Suc (i + length rest)]"
    by (rule upt_conv_Cons) simp
  from Cons.IH [OF r] show ?case by (simp add: f u del: upt_Suc)
qed

lemma children_lg_built:
  "children_lg traceID rootSpan now env i services spans w = (Ret out, w') \<Longrightarrow>
   out = spans @ map (\<lambda>(k, service). finished traceID rootSpan now (env k) service)
                     (zip [i..<i + length services] services)"
proof (induction services arbitrary: i spans w)
  case Nil
  then show ?case by simp
next
  case (Cons service rest)
  from Cons.prems obtain spanID w1 where
    a: "generateRandomID (idRead (env i)) w = (Ret spanID, w1)"
    and r: "children_lg traceID rootSpan now env (Suc i) rest
         (spans @ [(childSpan0 traceID rootSpan now (env i) spanID service)\<lparr>EndTime := UnixNano (clockAfter (env i))\<rparr>]) w1
         = (Ret out, w')"
    by (auto simp: Let_def split: prod.splits exec.splits)
  from generateRandomID_Ret [OF a] obtain bs where bs: "idRead (env i) = Inr bs" "spanID = hex16 bs"
    by blast
  have f: "(childSpan0 traceID rootSpan now (env i) spanID service)\<lparr>EndTime := UnixNano (clockAfter (env i))\<rparr>
        = finished traceID rootSpan now (env i) service"
    by (simp add: finished_def bs)
  have u: "[i..<Suc (i + length rest)] = i # [Suc i..<Suc (i + length rest)]"
    by (rule upt_conv_Cons) simp
  from Cons.IH [OF r] show ?case by (simp add: f u del: upt_Suc)
qed

lemma buildTrace_tg_built:
  assumes "buildTrace_tg services env w = (Ret (Inr trace), w')"
  shows "trace = trace_of services env \<and> (\<exists>bs. rootIdRead env = Inr bs) \<and> (\<exists>bs. traceIdRead env = Inr bs)"
proof -
  from assms obtain traceID w1 spanID w2 spans where
    t: "generateRandomID (traceIdRead env) w = (Ret traceID, w1)"
    and s: "generateRandomID (rootIdRead env) w1 = (Ret spanID, w2)"
    and c: "children_tg traceID (rootSpan0 traceID spanID (clockStart env)) (clockStart env) (child env) 0 services [] w2
              = (Ret (Inr spans), w')"
    and tr: "trace = \<lparr>Spans = spans @ [(rootSpan0 traceID spanID (clockStart env))\<lparr>EndTime := UnixNano (clockEnd env)\<rparr>]\<rparr>"
    by (auto simp: buildTrace_tg_def Let_def split: prod.splits exec.splits sum.splits)
  from generateRandomID_Ret [OF t] generateRandomID_Ret [OF s] children_tg_built [OF c] tr
  show ?thesis by (auto simp: trace_of_def Let_def)
qed

lemma buildTrace_lg_built:
  assumes "buildTrace_lg services env w = (Ret trace, w')"
  shows "trace = trace_of services env \<and> (\<exists>bs. rootIdRead env = Inr bs) \<and> (\<exists>bs. traceIdRead env = Inr bs)"
proof -
  from assms obtain traceID w1 spanID w2 spans where
    t: "generateRandomID (traceIdRead env) w = (Ret traceID, w1)"
    and s: "generateRandomID (rootIdRead env) w1 = (Ret spanID, w2)"
    and c: "children_lg traceID (rootSpan0 traceID spanID (clockStart env)) (clockStart env) (child env) 0 services [] w2
              = (Ret spans, w')"
    and tr: "trace = \<lparr>Spans = spans @ [(rootSpan0 traceID spanID (clockStart env))\<lparr>EndTime := UnixNano (clockEnd env)\<rparr>]\<rparr>"
    by (auto simp: buildTrace_lg_def Let_def split: prod.splits exec.splits sum.splits)
  from generateRandomID_Ret [OF t] generateRandomID_Ret [OF s] children_lg_built [OF c] tr
  show ?thesis by (auto simp: trace_of_def Let_def)
qed

lemma spans_trace_of:
  "Spans (trace_of services env) ! i =
     (if i < length services
      then finished (case traceIdRead env of Inr bs \<Rightarrow> hex16 bs | Inl err \<Rightarrow> '''')
             (rootSpan0 (case traceIdRead env of Inr bs \<Rightarrow> hex16 bs | Inl err \<Rightarrow> '''')
                        (case rootIdRead env of Inr bs \<Rightarrow> hex16 bs | Inl err \<Rightarrow> '''') (clockStart env))
             (clockStart env) (child env i) (services ! i)
      else if i = length services
      then (rootSpan0 (case traceIdRead env of Inr bs \<Rightarrow> hex16 bs | Inl err \<Rightarrow> '''')
                        (case rootIdRead env of Inr bs \<Rightarrow> hex16 bs | Inl err \<Rightarrow> '''') (clockStart env))
              \<lparr>EndTime := UnixNano (clockEnd env)\<rparr>
      else Spans (trace_of services env) ! i)"
  by (simp add: trace_of_def Let_def nth_append)

lemma length_trace_of: "length (Spans (trace_of services env)) = length services + 1"
  by (simp add: trace_of_def Let_def)

lemma trace_shape:
  assumes "trace = trace_of services env" and "rootIdRead env = Inr bs"
  shows "length (Spans trace) = length services + 1
    \<and> (\<forall>i<length (Spans trace). (ParentID (Spans trace ! i) = '''') = (i = length services))
    \<and> (\<forall>i<length services. ParentID (Spans trace ! i) = SpanID (Spans trace ! length services))
    \<and> (\<forall>i<length (Spans trace). TraceID (Spans trace ! i) = TraceID (Spans trace ! length services))"
proof -
  have ne: "hex16 bs \<noteq> ''''" using length_hex16 [of bs] by auto
  show ?thesis
    using ne by (auto simp: assms length_trace_of spans_trace_of finished_def childSpan0_def rootSpan0_def)
qed

lemma children_tg_completes:
  "(\<And>k. k < length services \<Longrightarrow> ctxBefore (env (i + k)) = Active \<and> ctxInWait (env (i + k)) = Active
        \<and> (\<exists>bs. idRead (env (i + k)) = Inr bs)) \<Longrightarrow>
   children_tg traceID rootSpan now env i services spans w =
     (Ret (Inr (spans @ map (\<lambda>(k, service). finished traceID rootSpan now (env k) service)
                         (zip [i..<i + length services] services))), w)"
proof (induction services arbitrary: i spans)
  case Nil
  then show ?case by simp
next
  case (Cons service rest)
  from Cons.prems [of 0] obtain bs where
    a: "ctxBefore (env i) = Active" "ctxInWait (env i) = Active" "idRead (env i) = Inr bs"
    by auto
  have r: "\<And>k. k < length rest \<Longrightarrow> ctxBefore (env (Suc i + k)) = Active \<and> ctxInWait (env (Suc i + k)) = Active
        \<and> (\<exists>bs. idRead (env (Suc i + k)) = Inr bs)"
    using Cons.prems [of "Suc k" for k] by simp
  have f: "(childSpan0 traceID rootSpan now (env i) (hex16 bs) service)\<lparr>EndTime := UnixNano (clockAfter (env i))\<rparr>
        = finished traceID rootSpan now (env i) service"
    by (simp add: finished_def a)
  have u: "[i..<Suc (i + length rest)] = i # [Suc i..<Suc (i + length rest)]"
    by (rule upt_conv_Cons) simp
  show ?case
    using Cons.IH [OF r] by (simp add: a generateRandomID_def f u del: upt_Suc)
qed

lemma buildTrace_tg_completes:
  assumes "traceIdRead env = Inr a" and "rootIdRead env = Inr b"
    and "\<And>k. k < length services \<Longrightarrow> ctxBefore (child env k) = Active \<and> ctxInWait (child env k) = Active
        \<and> (\<exists>bs. idRead (child env k) = Inr bs)"
  shows "buildTrace_tg services env w = (Ret (Inr (trace_of services env)), w)"
proof -
  have "\<And>k. k < length services \<Longrightarrow> ctxBefore (child env (0 + k)) = Active \<and> ctxInWait (child env (0 + k)) = Active
        \<and> (\<exists>bs. idRead (child env (0 + k)) = Inr bs)"
    using assms(3) by simp
  from children_tg_completes [where env = "child env" and i = 0, OF this]
  show ?thesis
    by (simp add: buildTrace_tg_def generateRandomID_def assms(1,2) trace_of_def Let_def)
qed

lemma tenv0_completes: "buildTrace_tg serviceNames tenv0 world0 = (Ret (Inr (trace_of serviceNames tenv0)), world0)"
  by (rule buildTrace_tg_completes [where a = "replicate 16 171" and b = "replicate 16 205"])
     (simp_all add: tenv0_def child_e0_def)

lemma children_lg_completes:
  "(\<And>k. k < length services \<Longrightarrow> \<exists>bs. idRead (env (i + k)) = Inr bs) \<Longrightarrow>
   children_lg traceID rootSpan now env i services spans w =
     (Ret (spans @ map (\<lambda>(k, service). finished traceID rootSpan now (env k) service)
                    (zip [i..<i + length services] services)), w)"
proof (induction services arbitrary: i spans)
  case Nil
  then show ?case by simp
next
  case (Cons service rest)
  from Cons.prems [of 0] obtain bs where a: "idRead (env i) = Inr bs" by auto
  have r: "\<And>k. k < length rest \<Longrightarrow> \<exists>bs. idRead (env (Suc i + k)) = Inr bs"
    using Cons.prems [of "Suc k" for k] by simp
  have f: "(childSpan0 traceID rootSpan now (env i) (hex16 bs) service)\<lparr>EndTime := UnixNano (clockAfter (env i))\<rparr>
        = finished traceID rootSpan now (env i) service"
    by (simp add: finished_def a)
  have u: "[i..<Suc (i + length rest)] = i # [Suc i..<Suc (i + length rest)]"
    by (rule upt_conv_Cons) simp
  show ?case
    using Cons.IH [OF r] by (simp add: a generateRandomID_def f u del: upt_Suc)
qed

lemma buildTrace_lg_completes:
  assumes "traceIdRead env = Inr a" and "rootIdRead env = Inr b"
    and "\<And>k. k < length services \<Longrightarrow> \<exists>bs. idRead (child env k) = Inr bs"
  shows "buildTrace_lg services env w = (Ret (trace_of services env), w)"
proof -
  have "\<And>k. k < length services \<Longrightarrow> \<exists>bs. idRead (child env (0 + k)) = Inr bs"
    using assms(3) by simp
  from children_lg_completes [where env = "child env" and i = 0, OF this]
  show ?thesis
    by (simp add: buildTrace_lg_def generateRandomID_def assms(1,2) trace_of_def Let_def)
qed

lemma one_orphan:
  assumes "rootIdRead env = Inr bs"
  shows "length (filter (\<lambda>s. ParentID s = '''') (Spans (trace_of services env))) = 1"
proof -
  have ne: "hex16 bs \<noteq> ''''" using length_hex16 [of bs] by auto
  have "filter (\<lambda>s. ParentID s = '''') (map f xs) = []" if "\<And>x. ParentID (f x) \<noteq> ''''"
    for f :: "nat \<times> string \<Rightarrow> Span" and xs
    using that by (simp add: filter_empty_conv)
  then show ?thesis
    using ne by (simp add: trace_of_def Let_def assms finished_def childSpan0_def rootSpan0_def split_def)
qed

text \<open>
  C4. A build that runs to its end over a catalogue of \<open>n\<close> services, in either trace
  generator, gives a trace of \<open>n + 1\<close> spans. Exactly one span has no parent, the root,
  which is the last span; every other span has the root's span identifier as its parent;
  and all spans carry the root's trace identifier.
\<close>

theorem buildTrace_root_and_children:
  assumes "buildTrace_tg services env w = (Ret (Inr trace), w')
         \<or> buildTrace_lg services env w = (Ret trace, w')"
  shows "length (Spans trace) = length services + 1
    \<and> length (filter (\<lambda>s. ParentID s = '''') (Spans trace)) = 1
    \<and> (\<forall>i<length (Spans trace). (ParentID (Spans trace ! i) = '''') = (i = length services))
    \<and> (\<forall>i<length services. ParentID (Spans trace ! i) = SpanID (Spans trace ! length services))
    \<and> (\<forall>i<length (Spans trace). TraceID (Spans trace ! i) = TraceID (Spans trace ! length services))"
proof -
  have "trace = trace_of services env \<and> (\<exists>bs. rootIdRead env = Inr bs)"
  proof (rule disjE [OF assms])
    assume "buildTrace_tg services env w = (Ret (Inr trace), w')"
    from buildTrace_tg_built [OF this] show ?thesis by fast
  next
    assume "buildTrace_lg services env w = (Ret trace, w')"
    from buildTrace_lg_built [OF this] show ?thesis by fast
  qed
  then obtain bs where t: "trace = trace_of services env" and b: "rootIdRead env = Inr bs"
    by (elim conjE exE)
  have o: "length (filter (\<lambda>s. ParentID s = '''') (Spans trace)) = 1"
    unfolding t using b by (rule one_orphan)
  from trace_shape [OF t b] o show ?thesis by (intro conjI) (elim conjE, assumption)+
qed

theorem buildTrace_root_and_children_witness:
  "buildTrace_tg serviceNames tenv0 world0 = (Ret (Inr (trace_of serviceNames tenv0)), world0)
   \<and> length serviceNames = 4
   \<and> length (Spans (trace_of serviceNames tenv0)) = 5
   \<and> length (filter (\<lambda>s. ParentID s = '''') (Spans (trace_of serviceNames tenv0))) = 1
   \<and> ParentID (Spans (trace_of serviceNames tenv0) ! 4) = ''''
   \<and> ParentID (Spans (trace_of serviceNames tenv0) ! 0) = SpanID (Spans (trace_of serviceNames tenv0) ! 4)
   \<and> ParentID (Spans (trace_of serviceNames tenv0) ! 3) = SpanID (Spans (trace_of serviceNames tenv0) ! 4)
   \<and> TraceID (Spans (trace_of serviceNames tenv0) ! 2) = TraceID (Spans (trace_of serviceNames tenv0) ! 4)"
proof -
  let ?T = "trace_of serviceNames tenv0"
  have n: "length serviceNames = 4" by (simp add: serviceNames_def)
  have "buildTrace_tg serviceNames tenv0 world0 = (Ret (Inr ?T), world0)
      \<or> buildTrace_lg serviceNames tenv0 world0 = (Ret ?T, world0)"
    using tenv0_completes by (rule disjI1)
  from buildTrace_root_and_children [OF this]
  have l: "length (Spans ?T) = length serviceNames + 1"
    and f: "length (filter (\<lambda>s. ParentID s = '''') (Spans ?T)) = 1"
    and p: "\<forall>i<length (Spans ?T). (ParentID (Spans ?T ! i) = '''') = (i = length serviceNames)"
    and c: "\<forall>i<length serviceNames. ParentID (Spans ?T ! i) = SpanID (Spans ?T ! length serviceNames)"
    and t: "\<forall>i<length (Spans ?T). TraceID (Spans ?T ! i) = TraceID (Spans ?T ! length serviceNames)"
    by blast+
  have l5: "length (Spans ?T) = 5" using l n by linarith
  have "(4::nat) < 5" and "(0::nat) < 4" and "(3::nat) < 4" and "(2::nat) < 5" by simp_all
  then have p4: "ParentID (Spans ?T ! 4) = ''''"
    and c0: "ParentID (Spans ?T ! 0) = SpanID (Spans ?T ! 4)"
    and c3: "ParentID (Spans ?T ! 3) = SpanID (Spans ?T ! 4)"
    and t2: "TraceID (Spans ?T ! 2) = TraceID (Spans ?T ! 4)"
    using p c t unfolding l5 n by blast+
  from tenv0_completes n l5 f p4 c0 c3 t2 show ?thesis by blast
qed

section \<open>A serialisation that fails\<close>






text \<open>The branch that \<open>sendTrace\<close> of \<open>trace_generator.go\<close> has for a failed
  \<open>json.Marshal\<close> is empty: were it entered, the function would go on and post the
  request with an empty body. The theorem below shows that it is not entered.\<close>

lemma sendTrace_tg_empty_branch:
  assumes "json_Marshal lib trace = Inl err" and "http_NewRequest lib ''POST'' (Endpoint tc) = None"
  shows "posted (snd (sendTrace_tg tc lib trace w)) =
           posted w @ [\<lparr>Method = ''POST'', URL = Endpoint tc,
                        Header = fold (\<lambda>(key, val). Header_Set key val) (Headers tc) [],
                        ReqBody = []\<rparr>]"
  using assms
  by (simp add: sendTrace_tg_def Let_def log_Printf_def fmt_Print_def split: sum.splits)




section \<open>Span times\<close>

lemma simulated_ge: "100 * Millisecond \<le> simulated e"
  by (simp add: simulated_def Intn_def Millisecond_def)

lemma waits_ok_down: "waits_ok env n \<Longrightarrow> j \<le> n \<Longrightarrow> waits_ok env j"
proof (induction n)
  case 0
  then show ?case by simp
next
  case (Suc n)
  then show ?case by (cases "j = Suc n") auto
qed

lemma reading_step:
  assumes "waits_ok env n" and "j < n"
  shows "reading env j + 100 * Millisecond \<le> reading env (Suc j)"
proof -
  from waits_ok_down [OF assms(1), of "Suc j"] assms(2)
  have "reading env j + simulated (child env j) \<le> clockAfter (child env j)" by simp
  with simulated_ge [of "child env j"] show ?thesis by simp
qed

lemma reading_mono:
  assumes "waits_ok env n"
  shows "j \<le> n \<Longrightarrow> i \<le> j \<Longrightarrow> reading env i \<le> reading env j"
proof (induction j)
  case 0
  then show ?case by simp
next
  case (Suc j)
  show ?case
  proof (cases "i = Suc j")
    case True
    then show ?thesis by simp
  next
    case False
    with Suc.prems have "i \<le> j" and "j < n" by simp_all
    with Suc.IH have "reading env i \<le> reading env j" by simp
    moreover from reading_step [OF assms \<open>j < n\<close>]
    have "reading env j \<le> reading env (Suc j)" by (simp add: Millisecond_def)
    ultimately show ?thesis by linarith
  qed
qed

lemma jitter_sint:
  "sint (Duration (Intn raw 100) * Duration Millisecond) = Intn raw 100 * Millisecond"
proof -
  have r: "0 \<le> Intn raw 100 \<and> Intn raw 100 < 100" by (simp add: Intn_def)
  have "Duration (Intn raw 100) * Duration Millisecond = (word_of_int (Intn raw 100 * Millisecond) :: int64)"
    by (simp add: Duration_def)
  moreover have "sint (word_of_int (Intn raw 100 * Millisecond) :: int64) = Intn raw 100 * Millisecond"
    using r by (intro sint_int64) (simp_all add: Millisecond_def)
  ultimately show ?thesis by simp
qed

lemma child_times:
  assumes "clock_ok env n" and "k < n"
  shows "sint (StartTime (finished traceID rootSpan (clockStart env) (child env k) service))
           = clockStart env + Intn (jitterRaw (child env k)) 100 * Millisecond
       \<and> sint (EndTime (finished traceID rootSpan (clockStart env) (child env k) service))
           = clockAfter (child env k)
       \<and> clockStart env + 100 * Millisecond \<le> clockAfter (child env k)"
proof -
  let ?j = "Intn (jitterRaw (child env k)) 100 * Millisecond"
  from assms(1) have w: "waits_ok env n" and e: "reading env n \<le> clockEnd env"
    and lo: "- (2 ^ 63) \<le> clockStart env" and hi: "clockEnd env < 2 ^ 63"
    by (simp_all add: clock_ok_def)
  have j: "0 \<le> ?j \<and> ?j < 100 * Millisecond" by (simp add: Intn_def Millisecond_def)
  have a: "clockStart env \<le> reading env k" using reading_mono [OF w, of k 0] assms(2) by simp
  have b: "reading env k + 100 * Millisecond \<le> clockAfter (child env k)"
    using reading_step [OF w assms(2)] by simp
  have c: "clockAfter (child env k) \<le> reading env n"
    using reading_mono [OF w, of n "Suc k"] assms(2) by simp
  have s: "sint (UnixNano (Add (clockStart env) (Duration (Intn (jitterRaw (child env k)) 100) * Duration Millisecond)))
          = clockStart env + ?j"
    unfolding UnixNano_def Add_def jitter_sint
    using lo hi a b c e j by (intro sint_int64) linarith+
  have t: "sint (UnixNano (clockAfter (child env k))) = clockAfter (child env k)"
    unfolding UnixNano_def using lo hi a b c e j by (intro sint_int64) (simp_all add: Millisecond_def)
  show ?thesis
    using s t a b by (simp add: finished_def childSpan0_def)
qed

lemma jitter_range: "0 \<le> Intn raw 100 * Millisecond \<and> Intn raw 100 * Millisecond < 100 * Millisecond"
  by (simp add: Intn_def Millisecond_def)

lemma root_times:
  assumes "clock_ok env n"
  shows "sint (StartTime ((rootSpan0 traceID spanID (clockStart env))\<lparr>EndTime := UnixNano (clockEnd env)\<rparr>))
           = clockStart env
       \<and> sint (EndTime ((rootSpan0 traceID spanID (clockStart env))\<lparr>EndTime := UnixNano (clockEnd env)\<rparr>))
           = clockEnd env
       \<and> clockStart env \<le> clockEnd env"
proof -
  from assms(1) have w: "waits_ok env n" and e: "reading env n \<le> clockEnd env"
    and lo: "- (2 ^ 63) \<le> clockStart env" and hi: "clockEnd env < 2 ^ 63"
    by (simp_all add: clock_ok_def)
  have a: "clockStart env \<le> reading env n" using reading_mono [OF w, of n 0] by simp
  have s: "sint (UnixNano (clockStart env)) = clockStart env"
    unfolding UnixNano_def using lo hi a e by (intro sint_int64) linarith+
  have t: "sint (UnixNano (clockEnd env)) = clockEnd env"
    unfolding UnixNano_def using lo hi a e by (intro sint_int64) linarith+
  show ?thesis using s t a e by (simp add: rootSpan0_def)
qed

text \<open>
  C9. Take a clock that does not run backwards and waits that last at least as long as
  asked (\<open>clock_ok\<close>), with readings an \<open>int64\<close> can hold. Then in the trace of a
  completed build, in either generator, every span has \<open>startTime \<le> endTime\<close>: each
  child starts at the trace start plus a jitter below 100 ms and ends at a stamp at least
  100 ms after the trace start, and the root starts at the trace start and ends at the
  last stamp.
\<close>

theorem span_start_not_after_end:
  assumes "buildTrace_tg services env w = (Ret (Inr trace), w')
         \<or> buildTrace_lg services env w = (Ret trace, w')"
    and "clock_ok env (length services)"
  shows "(\<forall>i<length (Spans trace). sint (StartTime (Spans trace ! i)) \<le> sint (EndTime (Spans trace ! i)))
    \<and> (\<forall>i<length services.
          clockStart env \<le> sint (StartTime (Spans trace ! i))
          \<and> sint (StartTime (Spans trace ! i)) < clockStart env + 100 * Millisecond
          \<and> clockStart env + 100 * Millisecond \<le> sint (EndTime (Spans trace ! i)))
    \<and> sint (StartTime (Spans trace ! length services)) = clockStart env
    \<and> sint (EndTime (Spans trace ! length services)) = clockEnd env"
proof -
  have "trace = trace_of services env"
  proof (rule disjE [OF assms(1)])
    assume "buildTrace_tg services env w = (Ret (Inr trace), w')"
    from buildTrace_tg_built [OF this] show ?thesis by fast
  next
    assume "buildTrace_lg services env w = (Ret trace, w')"
    from buildTrace_lg_built [OF this] show ?thesis by fast
  qed
  then have t: "Spans trace = Spans (trace_of services env)" by simp
  have len: "length (Spans trace) = length services + 1" by (simp add: t length_trace_of)
  have ch: "clockStart env \<le> sint (StartTime (Spans trace ! i))
          \<and> sint (StartTime (Spans trace ! i)) < clockStart env + 100 * Millisecond
          \<and> clockStart env + 100 * Millisecond \<le> sint (EndTime (Spans trace ! i))"
    if "i < length services" for i
  proof -
    have "Spans trace ! i = finished (case traceIdRead env of Inr bs \<Rightarrow> hex16 bs | Inl err \<Rightarrow> '''')
             (rootSpan0 (case traceIdRead env of Inr bs \<Rightarrow> hex16 bs | Inl err \<Rightarrow> '''')
                        (case rootIdRead env of Inr bs \<Rightarrow> hex16 bs | Inl err \<Rightarrow> '''') (clockStart env))
             (clockStart env) (child env i) (services ! i)"
      using that unfolding t by (subst spans_trace_of) simp
    with child_times [OF assms(2) that] jitter_range [of "jitterRaw (child env i)"]
    show ?thesis by simp
  qed
  have rt: "Spans trace ! length services =
      (rootSpan0 (case traceIdRead env of Inr bs \<Rightarrow> hex16 bs | Inl err \<Rightarrow> '''')
                        (case rootIdRead env of Inr bs \<Rightarrow> hex16 bs | Inl err \<Rightarrow> '''') (clockStart env))
              \<lparr>EndTime := UnixNano (clockEnd env)\<rparr>"
    unfolding t by (subst spans_trace_of) simp
  have r: "sint (StartTime (Spans trace ! length services)) = clockStart env
      \<and> sint (EndTime (Spans trace ! length services)) = clockEnd env
      \<and> clockStart env \<le> clockEnd env"
    unfolding rt by (rule root_times [OF assms(2)])
  have all: "sint (StartTime (Spans trace ! i)) \<le> sint (EndTime (Spans trace ! i))"
    if "i < length (Spans trace)" for i
  proof (cases "i < length services")
    case True
    from ch [OF True] show ?thesis by linarith
  next
    case False
    with that len have "i = length services" by simp
    with r show ?thesis by simp
  qed
  from all ch r show ?thesis by simp
qed

lemma clock_ok_tenv0: "clock_ok tenv0 (length serviceNames)"
  by (simp add: clock_ok_def serviceNames_def tenv0_def child_e0_def simulated_def Intn_def
      Millisecond_def eval_nat_numeral)

theorem span_start_not_after_end_witness:
  "buildTrace_tg serviceNames tenv0 world0 = (Ret (Inr (trace_of serviceNames tenv0)), world0)
   \<and> clock_ok tenv0 (length serviceNames)
   \<and> sint (StartTime (Spans (trace_of serviceNames tenv0) ! 1)) \<le> sint (EndTime (Spans (trace_of serviceNames tenv0) ! 1))
   \<and> sint (StartTime (Spans (trace_of serviceNames tenv0) ! 4)) = 1000
   \<and> sint (EndTime (Spans (trace_of serviceNames tenv0) ! 4)) = 600002000"
proof -
  let ?T = "trace_of serviceNames tenv0"
  have n: "length serviceNames = 4" by (simp add: serviceNames_def)
  have d: "buildTrace_tg serviceNames tenv0 world0 = (Ret (Inr ?T), world0)
      \<or> buildTrace_lg serviceNames tenv0 world0 = (Ret ?T, world0)"
    using tenv0_completes by (rule disjI1)
  from span_start_not_after_end [OF d clock_ok_tenv0]
  have a: "\<forall>i<length (Spans ?T). sint (StartTime (Spans ?T ! i)) \<le> sint (EndTime (Spans ?T ! i))"
    and s: "sint (StartTime (Spans ?T ! length serviceNames)) = clockStart tenv0"
    and e: "sint (EndTime (Spans ?T ! length serviceNames)) = clockEnd tenv0"
    by fast+
  have "(1::nat) < length (Spans ?T)" by (simp add: length_trace_of n)
  with a have a1: "sint (StartTime (Spans ?T ! 1)) \<le> sint (EndTime (Spans ?T ! 1))" by fast
  have s4: "sint (StartTime (Spans ?T ! 4)) = 1000" using s unfolding n by (simp add: tenv0_def)
  have e4: "sint (EndTime (Spans ?T ! 4)) = 600002000" using e unfolding n by (simp add: tenv0_def)
  from tenv0_completes clock_ok_tenv0 a1 s4 e4 show ?thesis by fast
qed

text \<open>The premise on the clock is needed: the stamps are wall-clock readings, and on
  a clock set back during the first wait the first child ends before it starts.\<close>

lemma stepped_back_clock:
  "buildTrace_tg serviceNames tenv_back world0 = (Ret (Inr (trace_of serviceNames tenv_back)), world0)
   \<and> \<not> clock_ok tenv_back (length serviceNames)
   \<and> sint (StartTime (Spans (trace_of serviceNames tenv_back) ! 0)) = 1000
   \<and> sint (EndTime (Spans (trace_of serviceNames tenv_back) ! 0)) = 500"
proof -
  have b: "buildTrace_tg serviceNames tenv_back world0 = (Ret (Inr (trace_of serviceNames tenv_back)), world0)"
    by (rule buildTrace_tg_completes [where a = "replicate 16 171" and b = "replicate 16 205"])
       (simp_all add: tenv_back_def tenv0_def child_e0_def)
  have c: "\<not> clock_ok tenv_back (length serviceNames)"
    by (simp add: clock_ok_def serviceNames_def tenv_back_def tenv0_def child_e0_def simulated_def
        Intn_def Millisecond_def eval_nat_numeral)
  have s: "Spans (trace_of serviceNames tenv_back) ! 0 =
      finished (hex16 (replicate 16 171)) (rootSpan0 (hex16 (replicate 16 171)) (hex16 (replicate 16 205)) 1000)
        1000 ((child_e0 0)\<lparr>clockAfter := 500\<rparr>) ''user-service''"
    by (subst spans_trace_of) (simp add: serviceNames_def tenv_back_def tenv0_def)
  have "sint (StartTime (Spans (trace_of serviceNames tenv_back) ! 0)) = 1000
      \<and> sint (EndTime (Spans (trace_of serviceNames tenv_back) ! 0)) = 500"
    unfolding s
    by (simp add: finished_def childSpan0_def child_e0_def UnixNano_def Add_def Duration_def Intn_def)
  with b c show ?thesis by simp
qed

section \<open>Cancellation while a trace is built\<close>

lemma children_tg_cancelled_in_wait:
  "(\<And>k. k < j \<Longrightarrow> ctxBefore (env (i + k)) = Active \<and> ctxInWait (env (i + k)) = Active
        \<and> (\<exists>bs. idRead (env (i + k)) = Inr bs)) \<Longrightarrow>
   j < length services \<Longrightarrow>
   ctxBefore (env (i + j)) = Active \<Longrightarrow> idRead (env (i + j)) = Inr c \<Longrightarrow>
   ctxInWait (env (i + j)) = Done err \<Longrightarrow>
   children_tg traceID rootSpan now env i services spans w = (Ret (Inl err), w)"
proof (induction j arbitrary: i services spans)
  case 0
  then obtain service rest where "services = service # rest" by (cases services) auto
  with 0 show ?case by (simp add: generateRandomID_def)
next
  case (Suc j)
  then obtain service rest where s: "services = service # rest" by (cases services) auto
  from Suc.prems(1) [of 0] obtain bs where
    a: "ctxBefore (env i) = Active" "ctxInWait (env i) = Active" "idRead (env i) = Inr bs"
    by auto
  have r: "\<And>k. k < j \<Longrightarrow> ctxBefore (env (Suc i + k)) = Active \<and> ctxInWait (env (Suc i + k)) = Active
        \<and> (\<exists>bs. idRead (env (Suc i + k)) = Inr bs)"
    using Suc.prems(1) [of "Suc k" for k] by simp
  have "children_tg traceID rootSpan now env (Suc i) rest
          (spans @ [(childSpan0 traceID rootSpan now (env i) (hex16 bs) service)\<lparr>EndTime := UnixNano (clockAfter (env i))\<rparr>]) w
        = (Ret (Inl err), w)"
    using Suc.prems(2-5) s by (intro Suc.IH [OF r]) simp_all
  then show ?case by (simp add: s a generateRandomID_def)
qed

lemma children_tg_cancelled_before:
  "(\<And>k. k < j \<Longrightarrow> ctxBefore (env (i + k)) = Active \<and> ctxInWait (env (i + k)) = Active
        \<and> (\<exists>bs. idRead (env (i + k)) = Inr bs)) \<Longrightarrow>
   j < length services \<Longrightarrow>
   ctxBefore (env (i + j)) = Done err \<Longrightarrow>
   children_tg traceID rootSpan now env i services spans w = (Ret (Inl err), w)"
proof (induction j arbitrary: i services spans)
  case 0
  then obtain service rest where "services = service # rest" by (cases services) auto
  with 0 show ?case by simp
next
  case (Suc j)
  then obtain service rest where s: "services = service # rest" by (cases services) auto
  from Suc.prems(1) [of 0] obtain bs where
    a: "ctxBefore (env i) = Active" "ctxInWait (env i) = Active" "idRead (env i) = Inr bs"
    by auto
  have r: "\<And>k. k < j \<Longrightarrow> ctxBefore (env (Suc i + k)) = Active \<and> ctxInWait (env (Suc i + k)) = Active
        \<and> (\<exists>bs. idRead (env (Suc i + k)) = Inr bs)"
    using Suc.prems(1) [of "Suc k" for k] by simp
  have "children_tg traceID rootSpan now env (Suc i) rest
          (spans @ [(childSpan0 traceID rootSpan now (env i) (hex16 bs) service)\<lparr>EndTime := UnixNano (clockAfter (env i))\<rparr>]) w
        = (Ret (Inl err), w)"
    using Suc.prems(2-3) s by (intro Suc.IH [OF r]) simp_all
  then show ?case by (simp add: s a generateRandomID_def)
qed

lemma generateTrace_lg_sends:
  assumes "traceIdRead env = Inr a" and "rootIdRead env = Inr b"
    and "\<And>k. k < length serviceNames \<Longrightarrow> \<exists>bs. idRead (child env k) = Inr bs"
  shows "generateTrace_lg endpoint auth lib env w =
     (case sendTrace_lg endpoint auth lib (trace_of serviceNames env) w of (r, w2) \<Rightarrow> (Ret r, w2))"
  by (simp add: generateTrace_lg_def buildTrace_lg_completes [OF assms])

text \<open>
  C5, as amended. In \<open>trace_generator.go\<close>: when the identifiers can be read, the
  children before child \<open>i\<close> complete, and the \<open>select\<close> that waits out the simulated
  duration of child \<open>i\<close> takes \<open>ctx.Done()\<close>, \<open>generateTrace\<close> returns \<open>ctx.Err()\<close>
  at once: the child's end is never stamped, the later children are not started,
  \<open>sendTrace\<close> is not called, and nothing is logged, printed, counted or posted. The
  \<open>generateTrace\<close> of \<open>log_generator.go\<close> takes no context and sleeps: in the same
  situation it builds the whole trace and hands it to \<open>sendTrace\<close>.
\<close>

theorem generateTrace_cancel_in_wait:
  assumes "traceIdRead env = Inr a" and "rootIdRead env = Inr b"
    and "\<And>k. k < length serviceNames \<Longrightarrow> \<exists>bs. idRead (child env k) = Inr bs"
    and "i < length serviceNames"
    and "\<And>k. k < i \<Longrightarrow> ctxBefore (child env k) = Active \<and> ctxInWait (child env k) = Active"
    and "ctxBefore (child env i) = Active" and "ctxInWait (child env i) = Done err"
  shows "generateTrace_tg tc lib env w = (Ret (Some err), w)
     \<and> generateTrace_lg endpoint auth lib env w =
         (case sendTrace_lg endpoint auth lib (trace_of serviceNames env) w of (r, w2) \<Rightarrow> (Ret r, w2))"
proof
  from assms(3) [OF assms(4)] obtain c where c: "idRead (child env i) = Inr c" by blast
  have p: "\<And>k. k < i \<Longrightarrow> ctxBefore (child env (0 + k)) = Active \<and> ctxInWait (child env (0 + k)) = Active
        \<and> (\<exists>bs. idRead (child env (0 + k)) = Inr bs)"
    using assms(3,4,5) by simp
  have "children_tg traceID rootSpan now (child env) 0 serviceNames [] w = (Ret (Inl err), w)"
    for traceID rootSpan now
    using assms(4,6,7) c
    by (intro children_tg_cancelled_in_wait [where env = "child env" and i = 0 and j = i, OF p]) simp_all
  then show "generateTrace_tg tc lib env w = (Ret (Some err), w)"
    by (simp add: generateTrace_tg_def buildTrace_tg_def generateRandomID_def assms(1,2) Let_def)
  show "generateTrace_lg endpoint auth lib env w =
         (case sendTrace_lg endpoint auth lib (trace_of serviceNames env) w of (r, w2) \<Rightarrow> (Ret r, w2))"
    using assms(1-3) by (rule generateTrace_lg_sends)
qed

lemma tenv_cancel_ids:
  "traceIdRead tenv_cancel = Inr (replicate 16 171)" "rootIdRead tenv_cancel = Inr (replicate 16 205)"
  "\<And>k. k < length serviceNames \<Longrightarrow> \<exists>bs. idRead (child tenv_cancel k) = Inr bs"
  by (simp_all add: tenv_cancel_def tenv0_def child_e0_def)

theorem generateTrace_cancel_in_wait_witness:
  "ctxInWait (child tenv_cancel 1) = Done Canceled
   \<and> generateTrace_tg defaultConfig (lib_ok [1, 2] 200) tenv_cancel world0 = (Ret (Some Canceled), world0)
   \<and> posted (snd (generateTrace_tg defaultConfig (lib_ok [1, 2] 200) tenv_cancel world0)) = []"
proof -
  have i: "(1::nat) < length serviceNames" by (simp add: serviceNames_def)
  have b: "\<And>k. k < (1::nat) \<Longrightarrow> ctxBefore (child tenv_cancel k) = Active \<and> ctxInWait (child tenv_cancel k) = Active"
    by (simp add: tenv_cancel_def tenv0_def child_e0_def)
  have c: "ctxBefore (child tenv_cancel 1) = Active" "ctxInWait (child tenv_cancel 1) = Done Canceled"
    by (simp_all add: tenv_cancel_def tenv0_def child_e0_def)
  from generateTrace_cancel_in_wait [OF tenv_cancel_ids i b c,
      where tc = defaultConfig and lib = "lib_ok [1, 2] 200" and w = world0]
  have "generateTrace_tg defaultConfig (lib_ok [1, 2] 200) tenv_cancel world0 = (Ret (Some Canceled), world0)"
    by simp
  with c(2) show ?thesis by (simp add: world0_def)
qed

text \<open>The claim as the specification words it fails on \<open>log_generator.go\<close>: with the
  cancellation arriving during the wait of the second child, that \<open>generateTrace\<close>
  returns no error and has posted the trace.\<close>

theorem generateTrace_lg_ignores_cancel_counterexample:
  "ctxInWait (child tenv_cancel 1) = Done Canceled
   \<and> fst (generateTrace_lg ''http://localhost:4318/traces'' '''' (lib_ok [1, 2] 200) tenv_cancel world0) = Ret None
   \<and> posted (snd (generateTrace_lg ''http://localhost:4318/traces'' '''' (lib_ok [1, 2] 200) tenv_cancel world0)) =
       [\<lparr>Method = ''POST'', URL = ''http://localhost:4318/traces'',
         Header = [(''Content-Type'', ''application/json'')], ReqBody = [1, 2]\<rparr>]"
proof -
  have c: "ctxInWait (child tenv_cancel 1) = Done Canceled"
    by (simp add: tenv_cancel_def tenv0_def child_e0_def)
  have "generateTrace_lg ''http://localhost:4318/traces'' '''' (lib_ok [1, 2] 200) tenv_cancel world0 =
     (case sendTrace_lg ''http://localhost:4318/traces'' '''' (lib_ok [1, 2] 200) (trace_of serviceNames tenv_cancel) world0
      of (r, w2) \<Rightarrow> (Ret r, w2))"
    using tenv_cancel_ids by (rule generateTrace_lg_sends)
  then show ?thesis
    using c by (simp add: sendTrace_lg_def lib_ok_def world0_def Let_def Header_Set_Content_Type)
qed

section \<open>Shutdown\<close>

lemma fold_notify:
  "length (sigChan p) \<le> 1 \<Longrightarrow> fold notify sigs p = p\<lparr>sigChan := take 1 (sigChan p @ sigs)\<rparr>"
proof (induction sigs arbitrary: p)
  case Nil
  then show ?case by simp
next
  case (Cons sig sigs)
  show ?case
  proof (cases "sigChan p")
    case Nil
    then have n: "notify sig p = p\<lparr>sigChan := [sig]\<rparr>" by (simp add: notify_def)
    show ?thesis using Nil by (simp add: n Cons.IH)
  next
    case (Cons a rest)
    with Cons.prems have r: "rest = []" by simp
    have n: "notify sig p = p" using Cons r by (simp add: notify_def)
    show ?thesis using Cons r Cons.prems by (simp add: n Cons.IH)
  qed
qed

lemma main_lg_after_signal:
  "main_lg (sig # further) traceGen preferSignal later logStops =
     (let p = \<lparr>sigChan = [sig], done_closed = False, ctx_cancelled = False, lines = []\<rparr>;
          p = (case traceGen of
                 Some (Some err) \<Rightarrow> cancel (say ''Trace generation failed: %v'' [AErr err] p)
               | _ \<Rightarrow> p);
          p = (if ctx_cancelled p \<and> \<not> preferSignal then say ''Context cancelled'' [] p
               else cancel (say ''Received signal: %v'' [AStr sig] (p\<lparr>sigChan := []\<rparr>)));
          p = say ''Waiting for goroutines to finish...'' [] (p\<lparr>done_closed := True\<rparr>);
          p = p\<lparr>sigChan := take 1 (sigChan p @ later)\<rparr>
      in if logStops \<and> traceGen \<noteq> None
         then (Ret (), cancel (say ''Shutdown complete'' [] p))
         else (Blocked, p))"
proof -
  have a: "fold notify (sig # further) \<lparr>sigChan = [], done_closed = False, ctx_cancelled = False, lines = []\<rparr>
      = \<lparr>sigChan = [sig], done_closed = False, ctx_cancelled = False, lines = []\<rparr>"
    using fold_notify [of "\<lparr>sigChan = [], done_closed = False, ctx_cancelled = False, lines = []\<rparr>" "sig # further"]
    by simp
  have l: "length (sigChan q) \<le> 1 \<Longrightarrow> fold notify later q = q\<lparr>sigChan := take 1 (sigChan q @ later)\<rparr>" for q
    by (rule fold_notify)
  show ?thesis
    unfolding main_lg_def a Let_def
    by (cases traceGen; cases preferSignal)
       (auto simp add: select_main_def close_done_def cancel_def say_def l split: option.splits)
qed

text \<open>
  C6. The source has no \<open>shutdown()\<close> to call: the shutdown sequence is the last four
  statements of \<open>main\<close>, which run once, after the \<open>select\<close> has taken one case.
  Shutdown is requested by a signal, and a request made again is a further signal.
  \<open>main\<close> does not panic, whatever arrives. When a signal has arrived, any further
  signals, before the \<open>select\<close> or during the wait, change nothing that can be
  observed: \<open>main\<close> ends or waits as it does with the one signal, \<open>done\<close> is closed, the
  context is cancelled and the same lines are logged, with the sequence run once. They
  differ only in \<open>sigChan\<close>, where at most one further signal lies unread.
\<close>

theorem shutdown_requested_again_changes_nothing:
  "fst (main_lg arrived traceGen preferSignal later logStops) \<noteq> Panic pn
   \<and> fst (main_lg (sig # further) traceGen preferSignal later logStops)
       = fst (main_lg [sig] traceGen preferSignal [] logStops)
   \<and> done_closed (snd (main_lg (sig # further) traceGen preferSignal later logStops))
   \<and> done_closed (snd (main_lg [sig] traceGen preferSignal [] logStops))
   \<and> ctx_cancelled (snd (main_lg (sig # further) traceGen preferSignal later logStops))
   \<and> ctx_cancelled (snd (main_lg [sig] traceGen preferSignal [] logStops))
   \<and> lines (snd (main_lg (sig # further) traceGen preferSignal later logStops))
       = lines (snd (main_lg [sig] traceGen preferSignal [] logStops))
   \<and> length (filter (\<lambda>l. fst l = ''Waiting for goroutines to finish...'')
        (lines (snd (main_lg (sig # further) traceGen preferSignal later logStops)))) = 1
   \<and> sigChan (snd (main_lg (sig # further) traceGen preferSignal later logStops))
       = take 1 (sigChan (snd (main_lg [sig] traceGen preferSignal [] logStops)) @ later)"
proof -
  have f: "fold notify arrived \<lparr>sigChan = [], done_closed = False, ctx_cancelled = False, lines = []\<rparr>
      = \<lparr>sigChan = take 1 arrived, done_closed = False, ctx_cancelled = False, lines = []\<rparr>"
    using fold_notify [of "\<lparr>sigChan = [], done_closed = False, ctx_cancelled = False, lines = []\<rparr>" arrived]
    by simp
  have np: "fst (main_lg arrived traceGen preferSignal later logStops) \<noteq> Panic pn"
    unfolding main_lg_def f Let_def
    by (auto simp add: select_main_def close_done_def cancel_def say_def
        split: option.splits list.splits sum.splits if_splits)
  have rest: "fst (main_lg (sig # further) traceGen preferSignal later logStops)
       = fst (main_lg [sig] traceGen preferSignal [] logStops)
   \<and> done_closed (snd (main_lg (sig # further) traceGen preferSignal later logStops))
   \<and> done_closed (snd (main_lg [sig] traceGen preferSignal [] logStops))
   \<and> ctx_cancelled (snd (main_lg (sig # further) traceGen preferSignal later logStops))
   \<and> ctx_cancelled (snd (main_lg [sig] traceGen preferSignal [] logStops))
   \<and> lines (snd (main_lg (sig # further) traceGen preferSignal later logStops))
       = lines (snd (main_lg [sig] traceGen preferSignal [] logStops))
   \<and> length (filter (\<lambda>l. fst l = ''Waiting for goroutines to finish...'')
        (lines (snd (main_lg (sig # further) traceGen preferSignal later logStops)))) = 1
   \<and> sigChan (snd (main_lg (sig # further) traceGen preferSignal later logStops))
       = take 1 (sigChan (snd (main_lg [sig] traceGen preferSignal [] logStops)) @ later)"
    unfolding main_lg_after_signal Let_def
    by (cases traceGen; cases preferSignal; cases logStops)
       (auto simp add: cancel_def say_def split: option.splits)
  from np rest show ?thesis by (rule conjI)
qed

text \<open>Two interrupts before the \<open>select\<close> and a termination signal during the wait, with
  the trace generator running as it does in \<open>log_generator.go\<close>: \<open>main\<close> logs the first
  interrupt, closes \<open>done\<close> and waits; the second interrupt is lost and the termination
  signal stays in \<open>sigChan\<close>.\<close>

theorem shutdown_requested_again_changes_nothing_witness:
  "main_lg [''interrupt'', ''interrupt''] None True [''terminated''] True =
     (Blocked, \<lparr>sigChan = [''terminated''], done_closed = True, ctx_cancelled = True,
                lines = [(''Received signal: %v'', [AStr ''interrupt'']),
                         (''Waiting for goroutines to finish...'', [])]\<rparr>)
   \<and> main_lg [''interrupt''] None True [] True =
     (Blocked, \<lparr>sigChan = [], done_closed = True, ctx_cancelled = True,
                lines = [(''Received signal: %v'', [AStr ''interrupt'']),
                         (''Waiting for goroutines to finish...'', [])]\<rparr>)"
proof -
  note T = shutdown_requested_again_changes_nothing
    [where arrived = "[''interrupt'', ''interrupt'']" and traceGen = None and preferSignal = True
       and later = "[''terminated'']" and logStops = True and sig = "''interrupt''"
       and further = "[''interrupt'']"]
  have one: "main_lg [''interrupt''] None True [] True =
     (Blocked, \<lparr>sigChan = [], done_closed = True, ctx_cancelled = True,
                lines = [(''Received signal: %v'', [AStr ''interrupt'']),
                         (''Waiting for goroutines to finish...'', [])]\<rparr>)"
    by (simp add: main_lg_def Let_def notify_def select_main_def close_done_def cancel_def say_def)
  let ?two = "main_lg [''interrupt'', ''interrupt''] None True [''terminated''] True"
  have "fst ?two = Blocked" and "done_closed (snd ?two)" and "ctx_cancelled (snd ?two)"
    and "lines (snd ?two) = [(''Received signal: %v'', [AStr ''interrupt'']),
                         (''Waiting for goroutines to finish...'', [])]"
    and "sigChan (snd ?two) = [''terminated'']"
    using T unfolding one by simp_all
  then have "?two = (Blocked, \<lparr>sigChan = [''terminated''], done_closed = True, ctx_cancelled = True,
                lines = [(''Received signal: %v'', [AStr ''interrupt'']),
                         (''Waiting for goroutines to finish...'', [])]\<rparr>)"
    by (cases ?two) auto
  with one show ?thesis by simp
qed


end
